theory Spec2Isabelle
  imports Main
begin

section \<open>The shared polling manager (class StoragePollingManager)\<close>

text \<open>
  The class keeps two private fields: \<open>intervalId\<close> (a timer handle or null) and
  \<open>subscribers\<close>, a JavaScript \<open>Set\<close> of callbacks. A \<open>Set\<close> iterates in insertion order
  and holds each member once, so it is kept as a list without repetitions: \<open>add\<close> appends
  a value that is not yet a member, \<open>delete\<close> removes it.

  The timers that \<open>setInterval\<close> has created and \<open>clearInterval\<close> has not yet
  cancelled belong to the JavaScript runtime; they are kept beside the two fields
  (\<open>intervals\<close>, with \<open>next_handle\<close> the handle the next \<open>setInterval\<close> returns), so
  that the number of live timers can be counted.
\<close>

record platform =
  window_defined :: bool
  clearInterval_defined :: bool

record 'cb poll_state =
  intervalId :: "nat option"
  subscribers :: "'cb list"
  intervals :: "nat list"
  next_handle :: nat

definition set_add :: "'a \<Rightarrow> 'a list \<Rightarrow> 'a list" where
  "set_add x xs = (if x \<in> set xs then xs else xs @ [x])"

definition set_delete :: "'a \<Rightarrow> 'a list \<Rightarrow> 'a list" where
  "set_delete x xs = removeAll x xs"

definition setInterval :: "'cb poll_state \<Rightarrow> nat \<times> 'cb poll_state" where
  "setInterval s =
     (next_handle s,
      s\<lparr>intervals := intervals s @ [next_handle s], next_handle := next_handle s + 1\<rparr>)"

definition clearInterval :: "nat \<Rightarrow> 'cb poll_state \<Rightarrow> 'cb poll_state" where
  "clearInterval h s = s\<lparr>intervals := removeAll h (intervals s)\<rparr>"

definition startPolling :: "'e platform_scheme \<Rightarrow> 'cb poll_state \<Rightarrow> 'cb poll_state" where
  "startPolling env s =
     (if \<not> window_defined env then s
      else (let (h, s') = setInterval s in s'\<lparr>intervalId := Some h\<rparr>))"

definition stopPolling :: "'e platform_scheme \<Rightarrow> 'cb poll_state \<Rightarrow> 'cb poll_state" where
  "stopPolling env s =
     (case intervalId s of
        None \<Rightarrow> s
      | Some h \<Rightarrow>
          (let s' = (if clearInterval_defined env then clearInterval h s else s)
           in s'\<lparr>intervalId := None\<rparr>))"

definition subscribe :: "'e platform_scheme \<Rightarrow> 'cb \<Rightarrow> 'cb poll_state \<Rightarrow> 'cb poll_state" where
  "subscribe env callback s =
     (let s1 = s\<lparr>subscribers := set_add callback (subscribers s)\<rparr>
      in if length (subscribers s1) = 1 \<and> intervalId s1 = None
         then startPolling env s1 else s1)"

text \<open>The function that \<open>subscribe\<close> returns, for the callback it was called with.\<close>

definition unsubscribe :: "'e platform_scheme \<Rightarrow> 'cb \<Rightarrow> 'cb poll_state \<Rightarrow> 'cb poll_state" where
  "unsubscribe env callback s =
     (let s1 = s\<lparr>subscribers := set_delete callback (subscribers s)\<rparr>
      in if length (subscribers s1) = 0 \<and> intervalId s1 \<noteq> None
         then stopPolling env s1 else s1)"

text \<open>
  The singleton is private to the module. Its only caller is the polling effect of
  \<open>useStorage\<close>, which returns before subscribing when there is no \<open>window\<close>; the
  effect's cleanup calls the function \<open>subscribe\<close> returned.
\<close>

definition register_binding :: "'e platform_scheme \<Rightarrow> 'cb \<Rightarrow> 'cb poll_state \<Rightarrow> 'cb poll_state" where
  "register_binding env checkValue s =
     (if \<not> window_defined env then s else subscribe env checkValue s)"

datatype 'cb poll_op = Register 'cb | Release 'cb

fun poll_step :: "'e platform_scheme \<Rightarrow> 'cb poll_state \<Rightarrow> 'cb poll_op \<Rightarrow> 'cb poll_state" where
  "poll_step env s (Register c) = register_binding env c s"
| "poll_step env s (Release c) = unsubscribe env c s"

definition run_ops :: "'e platform_scheme \<Rightarrow> 'cb poll_op list \<Rightarrow> 'cb poll_state \<Rightarrow> 'cb poll_state" where
  "run_ops env ops s = foldl (poll_step env) s ops"

text \<open>\<open>new StoragePollingManager()\<close>: no timer, no subscriber.\<close>

definition pollingManager :: "nat \<Rightarrow> 'cb poll_state" where
  "pollingManager h = \<lparr>intervalId = None, subscribers = [], intervals = [], next_handle = h\<rparr>"

text \<open>
  A piece of JavaScript either completes normally, with a result and the state it
  leaves, or throws, leaving the state as it was at that moment.
\<close>

datatype ('a, 'w) completion = Normal 'a 'w | Throw 'w

fun state_of :: "('a, 'w) completion \<Rightarrow> 'w" where
  "state_of (Normal x w) = w"
| "state_of (Throw w) = w"











section \<open>Values and their JSON text\<close>

text \<open>
  A JavaScript string is a sequence of UTF-16 code units; a code unit is kept as its
  number. \<open>str\<close> turns a literal of this file into such a string.

  \<open>StorageValue\<close> is \<open>string | number | boolean | unknown[] | Record<string, unknown> | null\<close>.
  A number is a double; its type \<open>'n\<close> and the three operations on it that
  \<open>JSON.stringify\<close> and \<open>JSON.parse\<close> use are those of the platform: whether it is
  finite, its decimal text, and the number a numeric literal denotes. An object is the
  list of its own properties, in the order in which they were created.
\<close>

type_synonym jsstring = "nat list"

definition str :: "string \<Rightarrow> jsstring" where
  "str cs = map of_char cs"

datatype 'n jsval =
    JNull
  | JBool bool
  | JNum 'n
  | JStr jsstring
  | JArr "'n jsval list"
  | JObj "(jsstring \<times> 'n jsval) list"

record 'n number_ops =
  isFinite :: "'n \<Rightarrow> bool"
  Number_toString :: "'n \<Rightarrow> jsstring"
  StringToNumber :: "jsstring \<Rightarrow> 'n"

subsection \<open>JSON.stringify\<close>

text \<open>
  \<open>QuoteJSONString\<close>: the two-character escapes for backspace, tab, line feed, form feed,
  carriage return, the quotation mark (34) and the backslash (92); a \<open>\u\<close> escape
  with four lower-case hexadecimal digits for the other code units below 32 and for a
  surrogate that is not part of a pair; every other code unit as it is.
\<close>

definition hex_digit :: "nat \<Rightarrow> nat" where
  "hex_digit d = (if d < 10 then 48 + d else 87 + d)"

definition unicode_escape :: "nat \<Rightarrow> jsstring" where
  "unicode_escape c =
     [92, 117, hex_digit (c div 4096 mod 16), hex_digit (c div 256 mod 16),
      hex_digit (c div 16 mod 16), hex_digit (c mod 16)]"

definition is_high_surrogate :: "nat \<Rightarrow> bool" where
  "is_high_surrogate c \<longleftrightarrow> 0xD800 \<le> c \<and> c \<le> 0xDBFF"

definition is_low_surrogate :: "nat \<Rightarrow> bool" where
  "is_low_surrogate c \<longleftrightarrow> 0xDC00 \<le> c \<and> c \<le> 0xDFFF"

definition quote_unit :: "nat \<Rightarrow> jsstring" where
  "quote_unit c =
     (if c = 8 then [92, 98]
      else if c = 9 then [92, 116]
      else if c = 10 then [92, 110]
      else if c = 12 then [92, 102]
      else if c = 13 then [92, 114]
      else if c = 34 then [92, 34]
      else if c = 92 then [92, 92]
      else if c < 32 then unicode_escape c
      else [c])"

fun quote_units :: "jsstring \<Rightarrow> jsstring" where
  "quote_units [] = []"
| "quote_units [c] =
     (if is_high_surrogate c \<or> is_low_surrogate c then unicode_escape c else quote_unit c)"
| "quote_units (c # d # cs) =
     (if is_high_surrogate c \<and> is_low_surrogate d then c # d # quote_units cs
      else if is_high_surrogate c \<or> is_low_surrogate c
        then unicode_escape c @ quote_units (d # cs)
      else quote_unit c @ quote_units (d # cs))"

definition QuoteJSONString :: "jsstring \<Rightarrow> jsstring" where
  "QuoteJSONString s = [34] @ quote_units s @ [34]"

text \<open>
  \<open>JSON.stringify(value)\<close> without replacer or indentation: a number that is not finite
  is written \<open>null\<close>; elements and members are separated by a comma, with no space.
\<close>

fun stringify :: "'n number_ops \<Rightarrow> 'n jsval \<Rightarrow> jsstring"
  and stringify_elements :: "'n number_ops \<Rightarrow> 'n jsval list \<Rightarrow> jsstring"
  and stringify_members :: "'n number_ops \<Rightarrow> (jsstring \<times> 'n jsval) list \<Rightarrow> jsstring" where
  "stringify ops JNull = str ''null''"
| "stringify ops (JBool b) = (if b then str ''true'' else str ''false'')"
| "stringify ops (JNum n) = (if isFinite ops n then Number_toString ops n else str ''null'')"
| "stringify ops (JStr s) = QuoteJSONString s"
| "stringify ops (JArr vs) = str ''['' @ stringify_elements ops vs @ str '']''"
| "stringify ops (JObj kvs) = str ''{'' @ stringify_members ops kvs @ str ''}''"
| "stringify_elements ops [] = []"
| "stringify_elements ops [v] = stringify ops v"
| "stringify_elements ops (v # w # vs) =
     stringify ops v @ str '','' @ stringify_elements ops (w # vs)"
| "stringify_members ops [] = []"
| "stringify_members ops [(k, v)] = QuoteJSONString k @ str '':'' @ stringify ops v"
| "stringify_members ops ((k, v) # m # kvs) =
     QuoteJSONString k @ str '':'' @ stringify ops v @ str '','' @ stringify_members ops (m # kvs)"

subsection \<open>JSON.parse\<close>

text \<open>
  The JSON grammar: white space is space, tab, line feed and carriage return; a string
  ends at the first unescaped quotation mark, must not hold a code unit below 32, and
  its escapes are \<open>\" \\ \/ \b \f \n \r \t\<close> and \<open>\u\<close> with four hexadecimal digits of
  either case; a number is an optional minus sign, \<open>0\<close> or a digit sequence, an optional
  fraction and an optional exponent. Each parser returns what it read and the rest of
  the text, or \<open>None\<close> for a \<open>SyntaxError\<close>.
\<close>

definition is_ws :: "nat \<Rightarrow> bool" where
  "is_ws c \<longleftrightarrow> c = 32 \<or> c = 9 \<or> c = 10 \<or> c = 13"

definition skip_ws :: "jsstring \<Rightarrow> jsstring" where
  "skip_ws s = dropWhile is_ws s"

definition is_digit :: "nat \<Rightarrow> bool" where
  "is_digit c \<longleftrightarrow> 48 \<le> c \<and> c \<le> 57"

definition hex_value :: "nat \<Rightarrow> nat option" where
  "hex_value c =
     (if 48 \<le> c \<and> c \<le> 57 then Some (c - 48)
      else if 97 \<le> c \<and> c \<le> 102 then Some (c - 87)
      else if 65 \<le> c \<and> c \<le> 70 then Some (c - 55)
      else None)"

definition hex4 :: "nat \<Rightarrow> nat \<Rightarrow> nat \<Rightarrow> nat \<Rightarrow> nat option" where
  "hex4 a b c d =
     (case (hex_value a, hex_value b, hex_value c, hex_value d) of
        (Some x, Some y, Some z, Some w) \<Rightarrow> Some (4096 * x + 256 * y + 16 * z + w)
      | _ \<Rightarrow> None)"

definition unescape :: "nat \<Rightarrow> nat option" where
  "unescape e =
     (if e = 34 then Some 34
      else if e = 92 then Some 92
      else if e = 47 then Some 47
      else if e = 98 then Some 8
      else if e = 102 then Some 12
      else if e = 110 then Some 10
      else if e = 114 then Some 13
      else if e = 116 then Some 9
      else None)"

definition cons_result :: "'a \<Rightarrow> ('a list \<times> 'b) option \<Rightarrow> ('a list \<times> 'b) option" where
  "cons_result x r = (case r of None \<Rightarrow> None | Some (xs, rest) \<Rightarrow> Some (x # xs, rest))"

text \<open>The characters of a string, after its opening quotation mark.\<close>

fun parse_chars :: "jsstring \<Rightarrow> (jsstring \<times> jsstring) option" where
  "parse_chars [] = None"
| "parse_chars (c # cs) =
     (if c = 34 then Some ([], cs)
      else if c = 92 then
        (case cs of
           [] \<Rightarrow> None
         | e # cs' \<Rightarrow>
             if e = 117 then
               (case cs' of
                  h1 # h2 # h3 # h4 # cs'' \<Rightarrow>
                    (case hex4 h1 h2 h3 h4 of
                       None \<Rightarrow> None
                     | Some u \<Rightarrow> cons_result u (parse_chars cs''))
                | _ \<Rightarrow> None)
             else
               (case unescape e of
                  None \<Rightarrow> None
                | Some u \<Rightarrow> cons_result u (parse_chars cs')))
      else if c < 32 then None
      else cons_result c (parse_chars cs))"

definition scan_digits :: "jsstring \<Rightarrow> (jsstring \<times> jsstring) option" where
  "scan_digits s =
     (if takeWhile is_digit s = [] then None
      else Some (takeWhile is_digit s, dropWhile is_digit s))"

definition scan_int :: "jsstring \<Rightarrow> (jsstring \<times> jsstring) option" where
  "scan_int s =
     (case s of
        [] \<Rightarrow> None
      | c # cs \<Rightarrow> if c = 48 then Some ([c], cs) else scan_digits s)"

definition scan_frac :: "jsstring \<Rightarrow> (jsstring \<times> jsstring) option" where
  "scan_frac s =
     (case s of
        [] \<Rightarrow> Some ([], s)
      | c # cs \<Rightarrow>
          if c = 46 then
            (case scan_digits cs of None \<Rightarrow> None | Some (ds, r) \<Rightarrow> Some (c # ds, r))
          else Some ([], s))"

definition scan_exp :: "jsstring \<Rightarrow> (jsstring \<times> jsstring) option" where
  "scan_exp s =
     (case s of
        [] \<Rightarrow> Some ([], s)
      | c # cs \<Rightarrow>
          if c = 101 \<or> c = 69 then
            (case cs of
               [] \<Rightarrow> None
             | g # cs' \<Rightarrow>
                 if g = 43 \<or> g = 45 then
                   (case scan_digits cs' of
                      None \<Rightarrow> None
                    | Some (ds, r) \<Rightarrow> Some (c # g # ds, r))
                 else
                   (case scan_digits cs of
                      None \<Rightarrow> None
                    | Some (ds, r) \<Rightarrow> Some (c # ds, r)))
          else Some ([], s))"

text \<open>The longest numeric literal at the head of the text, and what follows it.\<close>

definition scan_number :: "jsstring \<Rightarrow> (jsstring \<times> jsstring) option" where
  "scan_number s =
     (let (sign, s0) =
            (case s of [] \<Rightarrow> ([], s) | c # cs \<Rightarrow> if c = 45 then ([c], cs) else ([], s))
      in case scan_int s0 of
           None \<Rightarrow> None
         | Some (ip, s1) \<Rightarrow>
             (case scan_frac s1 of
                None \<Rightarrow> None
              | Some (fp, s2) \<Rightarrow>
                  (case scan_exp s2 of
                     None \<Rightarrow> None
                   | Some (ep, s3) \<Rightarrow> Some (sign @ ip @ fp @ ep, s3))))"

definition strip_prefix :: "'a list \<Rightarrow> 'a list \<Rightarrow> 'a list option" where
  "strip_prefix p s = (if take (length p) s = p then Some (drop (length p) s) else None)"

text \<open>
  A member whose name the object already has replaces the value of that property, which
  keeps its place; a new name is added at the end.
\<close>

definition obj_put :: "jsstring \<Rightarrow> 'v \<Rightarrow> (jsstring \<times> 'v) list \<Rightarrow> (jsstring \<times> 'v) list" where
  "obj_put k v kvs =
     (if k \<in> fst ` set kvs then map (\<lambda>(k', v'). if k' = k then (k', v) else (k', v')) kvs
      else kvs @ [(k, v)])"

definition obj_of_members :: "(jsstring \<times> 'v) list \<Rightarrow> (jsstring \<times> 'v) list" where
  "obj_of_members kvs = foldl (\<lambda>acc (k, v). obj_put k v acc) [] kvs"

lemma skip_ws_length: "length (skip_ws s) \<le> length s"
  by (simp add: skip_ws_def length_dropWhile_le)

lemma skip_ws_Cons: "skip_ws s = d # r \<Longrightarrow> length r < length s"
  using skip_ws_length [of s] by simp

lemma parse_chars_length:
  "parse_chars cs = Some (u, r) \<Longrightarrow> length r < Suc (length cs)"
  by (induction cs arbitrary: u r rule: parse_chars.induct)
     (fastforce simp: cons_result_def split: if_splits list.splits option.splits)+

text \<open>
  A value, the elements of an array after its opening bracket, and the members of an
  object after its opening brace. The text given to each starts at a token. The two
  tests on the length of the rest make the recursion visibly terminate; they never
  fail (\<open>parse_consumes\<close>, at the end).
\<close>

function (sequential)
  parse_value :: "'n number_ops \<Rightarrow> jsstring \<Rightarrow> ('n jsval \<times> jsstring) option"
  and parse_elements :: "'n number_ops \<Rightarrow> jsstring \<Rightarrow> ('n jsval list \<times> jsstring) option"
  and parse_members ::
    "'n number_ops \<Rightarrow> jsstring \<Rightarrow> ((jsstring \<times> 'n jsval) list \<times> jsstring) option"
where
  "parse_value ops [] = None"
| "parse_value ops (c # cs) =
     (if c = 123 then
        (case skip_ws cs of
           [] \<Rightarrow> None
         | d # r \<Rightarrow>
             if d = 125 then Some (JObj [], r)
             else (case parse_members ops (skip_ws cs) of
                     None \<Rightarrow> None
                   | Some (kvs, r') \<Rightarrow> Some (JObj (obj_of_members kvs), r')))
      else if c = 91 then
        (case skip_ws cs of
           [] \<Rightarrow> None
         | d # r \<Rightarrow>
             if d = 93 then Some (JArr [], r)
             else (case parse_elements ops (skip_ws cs) of
                     None \<Rightarrow> None
                   | Some (vs, r') \<Rightarrow> Some (JArr vs, r')))
      else if c = 34 then
        (case parse_chars cs of None \<Rightarrow> None | Some (u, r) \<Rightarrow> Some (JStr u, r))
      else if c = 116 then
        (case strip_prefix (str ''rue'') cs of
           None \<Rightarrow> None
         | Some r \<Rightarrow> Some (JBool True, r))
      else if c = 102 then
        (case strip_prefix (str ''alse'') cs of
           None \<Rightarrow> None
         | Some r \<Rightarrow> Some (JBool False, r))
      else if c = 110 then
        (case strip_prefix (str ''ull'') cs of None \<Rightarrow> None | Some r \<Rightarrow> Some (JNull, r))
      else
        (case scan_number (c # cs) of
           None \<Rightarrow> None
         | Some (lit, r) \<Rightarrow> Some (JNum (StringToNumber ops lit), r)))"
| "parse_elements ops s =
     (case parse_value ops s of
        None \<Rightarrow> None
      | Some (v, r) \<Rightarrow>
          if length r < length s then
            (case skip_ws r of
               [] \<Rightarrow> None
             | d # r' \<Rightarrow>
                 if d = 44 then cons_result v (parse_elements ops (skip_ws r'))
                 else if d = 93 then Some ([v], r')
                 else None)
          else None)"
| "parse_members ops [] = None"
| "parse_members ops (c # cs) =
     (if c = 34 then
        (case parse_chars cs of
           None \<Rightarrow> None
         | Some (k, r) \<Rightarrow>
             (case skip_ws r of
                [] \<Rightarrow> None
              | d # r1 \<Rightarrow>
                  if d = 58 then
                    (case parse_value ops (skip_ws r1) of
                       None \<Rightarrow> None
                     | Some (v, r2) \<Rightarrow>
                         if length r2 < length (skip_ws r1) then
                           (case skip_ws r2 of
                              [] \<Rightarrow> None
                            | e # r3 \<Rightarrow>
                                if e = 44
                                  then cons_result (k, v) (parse_members ops (skip_ws r3))
                                else if e = 125 then Some ([(k, v)], r3)
                                else None)
                         else None)
                  else None))
      else None)"
  by pat_completeness auto
termination
  apply (relation "measure (\<lambda>x. case x of
      Inl (ops, s) \<Rightarrow> 2 * length s
    | Inr (Inl (ops, s)) \<Rightarrow> 2 * length s + 1
    | Inr (Inr (ops, s)) \<Rightarrow> 2 * length s + 1)")
  apply simp_all
  subgoal for c cs d r
    using skip_ws_Cons [of cs d r] by simp
  subgoal for c cs d r
    using skip_ws_Cons [of cs d r] by simp
  subgoal for ops s x v r d r'
    using skip_ws_Cons [of r d r'] skip_ws_length [of r'] by simp
  subgoal for c cs x k r d r1
    using parse_chars_length [of cs k r] skip_ws_Cons [of r d r1] skip_ws_length [of r1]
    by simp
  subgoal for ops c cs x k r d r1 y v r2 e r3
    using parse_chars_length [of cs k r] skip_ws_Cons [of r d r1] skip_ws_length [of r1]
      skip_ws_Cons [of r2 e r3] skip_ws_length [of r3]
    by simp
  done

text \<open>\<open>JSON.parse(text)\<close>: one value, with nothing but white space around it.\<close>

definition JSON_parse :: "'n number_ops \<Rightarrow> jsstring \<Rightarrow> 'n jsval option" where
  "JSON_parse ops text =
     (case parse_value ops (skip_ws text) of
        None \<Rightarrow> None
      | Some (v, r) \<Rightarrow> if skip_ws r = [] then Some v else None)"

section \<open>The browser: storage areas, cookies, the clock, the console\<close>

text \<open>
  The three backends of \<open>StorageType\<close>. \<open>localStorage\<close> and \<open>sessionStorage\<close> are maps
  from keys to texts; \<open>document.cookie\<close> is backed by the cookies the document can see.
  Any access may throw (storage disabled, quota exceeded, sandboxed document): the
  browser record says which ones do. The world is what the hook can change or read:
  the two storage areas, the cookies, the clock behind \<open>new Date()\<close> in milliseconds
  since the epoch, and the messages \<open>console.warn\<close> has printed.
\<close>

datatype StorageType = localStorage | sessionStorage | cookie

datatype access =
    GetItem StorageType jsstring
  | SetItem StorageType jsstring jsstring
  | RemoveItem StorageType jsstring
  | ClearItems StorageType
  | ReadCookie
  | WriteCookie jsstring

record 'n browser = platform +
  document_defined :: bool
  throws :: "access \<Rightarrow> bool"
  numbers :: "'n number_ops"

record world =
  localStorage_items :: "jsstring \<rightharpoonup> jsstring"
  sessionStorage_items :: "jsstring \<rightharpoonup> jsstring"
  cookie_jar :: "(jsstring \<times> jsstring) list"
  clock :: int
  warnings :: "jsstring list"

definition console_warn :: "jsstring \<Rightarrow> world \<Rightarrow> world" where
  "console_warn msg w = w\<lparr>warnings := warnings w @ [msg]\<rparr>"

definition items :: "StorageType \<Rightarrow> world \<Rightarrow> (jsstring \<rightharpoonup> jsstring)" where
  "items t w = (if t = sessionStorage then sessionStorage_items w else localStorage_items w)"

definition put_items :: "StorageType \<Rightarrow> (jsstring \<rightharpoonup> jsstring) \<Rightarrow> world \<Rightarrow> world" where
  "put_items t m w =
     (if t = sessionStorage then w\<lparr>sessionStorage_items := m\<rparr>
      else w\<lparr>localStorage_items := m\<rparr>)"

definition getItem ::
  "('n, 'e) browser_scheme \<Rightarrow> StorageType \<Rightarrow> jsstring \<Rightarrow> world
     \<Rightarrow> (jsstring option, world) completion" where
  "getItem env t k w = (if throws env (GetItem t k) then Throw w else Normal (items t w k) w)"

definition setItem ::
  "('n, 'e) browser_scheme \<Rightarrow> StorageType \<Rightarrow> jsstring \<Rightarrow> jsstring \<Rightarrow> world
     \<Rightarrow> (unit, world) completion" where
  "setItem env t k v w =
     (if throws env (SetItem t k v) then Throw w
      else Normal () (put_items t ((items t w)(k \<mapsto> v)) w))"

definition removeItem ::
  "('n, 'e) browser_scheme \<Rightarrow> StorageType \<Rightarrow> jsstring \<Rightarrow> world \<Rightarrow> (unit, world) completion" where
  "removeItem env t k w =
     (if throws env (RemoveItem t k) then Throw w
      else Normal () (put_items t ((items t w)(k := None)) w))"

definition clear_items ::
  "('n, 'e) browser_scheme \<Rightarrow> StorageType \<Rightarrow> world \<Rightarrow> (unit, world) completion" where
  "clear_items env t w =
     (if throws env (ClearItems t) then Throw w else Normal () (put_items t Map.empty w))"

subsection \<open>encodeURIComponent and decodeURIComponent\<close>

text \<open>
  \<open>encodeURIComponent\<close> keeps the letters, the digits and \<open>- _ . ! ~ * ' ( )\<close>, and
  writes every other code point as the bytes of its UTF-8 form, each as \<open>%\<close> and two
  upper-case hexadecimal digits; a surrogate outside a pair is a \<open>URIError\<close> (\<open>None\<close>).
  \<open>decodeURIComponent\<close> reads the escapes back and throws on a malformed one.
\<close>

definition is_alnum :: "nat \<Rightarrow> bool" where
  "is_alnum c \<longleftrightarrow> (48 \<le> c \<and> c \<le> 57) \<or> (65 \<le> c \<and> c \<le> 90) \<or> (97 \<le> c \<and> c \<le> 122)"

definition uri_unreserved :: "nat \<Rightarrow> bool" where
  "uri_unreserved c \<longleftrightarrow> is_alnum c \<or> c \<in> set (str ''-_.!~*()'') \<or> c = 39"

definition HEX_digit :: "nat \<Rightarrow> nat" where
  "HEX_digit d = (if d < 10 then 48 + d else 55 + d)"

definition percent_byte :: "nat \<Rightarrow> jsstring" where
  "percent_byte b = [37, HEX_digit (b div 16), HEX_digit (b mod 16)]"

definition utf8 :: "nat \<Rightarrow> nat list" where
  "utf8 cp =
     (if cp < 0x80 then [cp]
      else if cp < 0x800 then [0xC0 + cp div 64, 0x80 + cp mod 64]
      else if cp < 0x10000 then [0xE0 + cp div 4096, 0x80 + cp div 64 mod 64, 0x80 + cp mod 64]
      else [0xF0 + cp div 262144, 0x80 + cp div 4096 mod 64, 0x80 + cp div 64 mod 64,
            0x80 + cp mod 64])"

definition append_result :: "'a list \<Rightarrow> 'a list option \<Rightarrow> 'a list option" where
  "append_result xs r = (case r of None \<Rightarrow> None | Some ys \<Rightarrow> Some (xs @ ys))"

fun encodeURIComponent :: "jsstring \<Rightarrow> jsstring option" where
  "encodeURIComponent [] = Some []"
| "encodeURIComponent (c # cs) =
     (if uri_unreserved c then append_result [c] (encodeURIComponent cs)
      else if is_low_surrogate c then None
      else if is_high_surrogate c then
        (case cs of
           [] \<Rightarrow> None
         | d # ds \<Rightarrow>
             if is_low_surrogate d then
               append_result
                 (concat (map percent_byte
                    (utf8 ((c - 0xD800) * 0x400 + (d - 0xDC00) + 0x10000))))
                 (encodeURIComponent ds)
             else None)
      else append_result (concat (map percent_byte (utf8 c))) (encodeURIComponent cs))"

definition hex2 :: "nat \<Rightarrow> nat \<Rightarrow> nat option" where
  "hex2 a b =
     (case (hex_value a, hex_value b) of (Some x, Some y) \<Rightarrow> Some (16 * x + y) | _ \<Rightarrow> None)"

text \<open>One escape \<open>%XX\<close> at the head of the text: its byte and the rest.\<close>

definition read_escape :: "jsstring \<Rightarrow> (nat \<times> jsstring) option" where
  "read_escape s =
     (case s of
        p # a # b # r \<Rightarrow>
          if p = 37 then (case hex2 a b of None \<Rightarrow> None | Some x \<Rightarrow> Some (x, r)) else None
      | _ \<Rightarrow> None)"

text \<open>\<open>n\<close> continuation bytes \<open>10xxxxxx\<close>, folded into the code point begun with \<open>acc\<close>.\<close>

fun read_continuation :: "nat \<Rightarrow> nat \<Rightarrow> jsstring \<Rightarrow> (nat \<times> jsstring) option" where
  "read_continuation 0 acc s = Some (acc, s)"
| "read_continuation (Suc n) acc s =
     (case read_escape s of
        None \<Rightarrow> None
      | Some (b, r) \<Rightarrow>
          if 0x80 \<le> b \<and> b < 0xC0 then read_continuation n (acc * 64 + (b - 0x80)) r
          else None)"

definition units_of_code_point :: "nat \<Rightarrow> jsstring" where
  "units_of_code_point cp =
     (if cp < 0x10000 then [cp]
      else [0xD800 + (cp - 0x10000) div 0x400, 0xDC00 + (cp - 0x10000) mod 0x400])"

text \<open>
  The code units of one escaped code point at the head of the text (which starts with
  \<open>%\<close>), and the rest: overlong forms, surrogates and code points above 0x10FFFF are
  malformed.
\<close>

definition decode_escaped :: "jsstring \<Rightarrow> (jsstring \<times> jsstring) option" where
  "decode_escaped s =
     (case read_escape s of
        None \<Rightarrow> None
      | Some (b, r) \<Rightarrow>
          if b < 0x80 then Some ([b], r)
          else if 0xC0 \<le> b \<and> b < 0xE0 then
            (case read_continuation 1 (b - 0xC0) r of
               None \<Rightarrow> None
             | Some (cp, r') \<Rightarrow> if cp < 0x80 then None else Some ([cp], r'))
          else if 0xE0 \<le> b \<and> b < 0xF0 then
            (case read_continuation 2 (b - 0xE0) r of
               None \<Rightarrow> None
             | Some (cp, r') \<Rightarrow>
                 if cp < 0x800 \<or> (0xD800 \<le> cp \<and> cp \<le> 0xDFFF) then None
                 else Some ([cp], r'))
          else if 0xF0 \<le> b \<and> b < 0xF8 then
            (case read_continuation 3 (b - 0xF0) r of
               None \<Rightarrow> None
             | Some (cp, r') \<Rightarrow>
                 if cp < 0x10000 \<or> 0x10FFFF < cp then None
                 else Some (units_of_code_point cp, r'))
          else None)"

fun decodeURIComponent :: "jsstring \<Rightarrow> jsstring option" where
  "decodeURIComponent [] = Some []"
| "decodeURIComponent (c # cs) =
     (if c \<noteq> 37 then append_result [c] (decodeURIComponent cs)
      else
        (case decode_escaped (c # cs) of
           None \<Rightarrow> None
         | Some (us, r) \<Rightarrow>
             if length r < length (c # cs) then append_result us (decodeURIComponent r)
             else None))"

subsection \<open>Dates\<close>

text \<open>
  A \<open>Date\<close> is its time value, in milliseconds since 1 January 1970 UTC.
  \<open>toUTCString\<close> writes it as \<open>Thu, 01 Jan 1970 00:00:00 GMT\<close>; the calendar date of a
  day number, and the day number of a calendar date, are computed in the proleptic
  Gregorian calendar. A time value beyond 8.64e15 in magnitude is the invalid date.
\<close>

fun dec_digits :: "nat \<Rightarrow> jsstring" where
  "dec_digits n = (if n < 10 then [48 + n] else dec_digits (n div 10) @ [48 + n mod 10])"

declare dec_digits.simps [simp del]

definition read_digits :: "jsstring \<Rightarrow> nat" where
  "read_digits ds = foldl (\<lambda>a c. 10 * a + (c - 48)) 0 ds"

definition zero_pad :: "nat \<Rightarrow> jsstring \<Rightarrow> jsstring" where
  "zero_pad k ds = replicate (k - length ds) 48 @ ds"

text \<open>
  The calendar date (year, month, day) of a day number counted from 1 January 1970:
  the era of 400 years and the day within it, the year within the era, the day within
  the year counted from 1 March, the month counted from March.
\<close>

definition civil_of_month :: "int \<Rightarrow> int \<Rightarrow> int \<Rightarrow> int \<times> int \<times> int" where
  "civil_of_month y doy mp =
     (if mp < 10 then (y, mp + 3, doy - (153 * mp + 2) div 5 + 1)
      else (y + 1, mp - 9, doy - (153 * mp + 2) div 5 + 1))"

definition civil_of_day :: "int \<Rightarrow> int \<Rightarrow> int \<times> int \<times> int" where
  "civil_of_day y doy = civil_of_month y doy ((5 * doy + 2) div 153)"

definition civil_of_year :: "int \<Rightarrow> int \<Rightarrow> int \<Rightarrow> int \<times> int \<times> int" where
  "civil_of_year era doe yoe =
     civil_of_day (yoe + era * 400) (doe - (365 * yoe + yoe div 4 - yoe div 100))"

definition civil_of_era :: "int \<Rightarrow> int \<Rightarrow> int \<times> int \<times> int" where
  "civil_of_era era doe =
     civil_of_year era doe ((doe - doe div 1460 + doe div 36524 - doe div 146096) div 365)"

definition civil_from_days :: "int \<Rightarrow> int \<times> int \<times> int" where
  "civil_from_days z = civil_of_era ((z + 719468) div 146097) ((z + 719468) mod 146097)"

definition days_of_era :: "int \<Rightarrow> int \<Rightarrow> int \<Rightarrow> int" where
  "days_of_era era yoe doy =
     era * 146097 + (yoe * 365 + yoe div 4 - yoe div 100 + doy) - 719468"

definition days_of_year :: "int \<Rightarrow> int \<Rightarrow> int \<Rightarrow> int" where
  "days_of_year y' mp d = days_of_era (y' div 400) (y' mod 400) ((153 * mp + 2) div 5 + d - 1)"

definition days_from_civil :: "int \<Rightarrow> int \<Rightarrow> int \<Rightarrow> int" where
  "days_from_civil y m d =
     (if m \<le> 2 then days_of_year (y - 1) (m + 9) d else days_of_year y (m - 3) d)"

definition day_names :: "jsstring list" where
  "day_names = map str [''Sun'', ''Mon'', ''Tue'', ''Wed'', ''Thu'', ''Fri'', ''Sat'']"

definition month_names :: "jsstring list" where
  "month_names = map str [''Jan'', ''Feb'', ''Mar'', ''Apr'', ''May'', ''Jun'', ''Jul'',
     ''Aug'', ''Sep'', ''Oct'', ''Nov'', ''Dec'']"

definition two_digits :: "int \<Rightarrow> jsstring" where
  "two_digits n = zero_pad 2 (dec_digits (nat n))"

definition year_text :: "int \<Rightarrow> jsstring" where
  "year_text y = (if y < 0 then [45] else []) @ zero_pad 4 (dec_digits (nat \<bar>y\<bar>))"

definition date_text :: "int \<Rightarrow> int \<Rightarrow> int \<times> int \<times> int \<Rightarrow> jsstring" where
  "date_text days ms ymd =
     (case ymd of
        (y, m, d) \<Rightarrow>
          day_names ! nat ((days + 4) mod 7) @ str '', '' @ two_digits d @ str '' ''
            @ month_names ! nat (m - 1) @ str '' '' @ year_text y @ str '' ''
            @ two_digits (ms div 3600000) @ str '':''
            @ two_digits (ms div 60000 mod 60) @ str '':''
            @ two_digits (ms div 1000 mod 60) @ str '' GMT'')"

definition toUTCString :: "int \<Rightarrow> jsstring" where
  "toUTCString t =
     (if t < - 8640000000000000 \<or> 8640000000000000 < t then str ''Invalid Date''
      else date_text (t div 86400000) (t mod 86400000) (civil_from_days (t div 86400000)))"

subsection \<open>document.cookie\<close>

text \<open>
  Reading \<open>document.cookie\<close> gives the cookies as \<open>name=value\<close>, joined by a semicolon
  and a space. Assigning a cookie string stores its name and value (trimmed), replacing
  a cookie of that name, unless its \<open>expires\<close> attribute is a date that is not in the
  future: then the cookie of that name is dropped, which is how \<open>removeCookie\<close>
  deletes. The date of the attribute is read as a user agent reads a cookie date: the
  text is cut at delimiters, and the first tokens that look like a time, a day of the
  month, a month and a year are taken. The other attributes (path, domain, secure,
  SameSite) select where a cookie is visible; the document here sees one such scope.
\<close>

fun split_where :: "(nat \<Rightarrow> bool) \<Rightarrow> jsstring \<Rightarrow> jsstring list" where
  "split_where P [] = [[]]"
| "split_where P (c # cs) =
     (if P c then [] # split_where P cs
      else (case split_where P cs of [] \<Rightarrow> [[c]] | x # xs \<Rightarrow> (c # x) # xs))"

definition split_on :: "nat \<Rightarrow> jsstring \<Rightarrow> jsstring list" where
  "split_on d s = split_where (\<lambda>c. c = d) s"

definition is_blank :: "nat \<Rightarrow> bool" where
  "is_blank c \<longleftrightarrow> c = 32 \<or> c = 9"

definition trim :: "jsstring \<Rightarrow> jsstring" where
  "trim s = rev (dropWhile is_blank (rev (dropWhile is_blank s)))"

definition ascii_lower :: "nat \<Rightarrow> nat" where
  "ascii_lower c = (if 65 \<le> c \<and> c \<le> 90 then c + 32 else c)"

definition is_delimiter :: "nat \<Rightarrow> bool" where
  "is_delimiter c \<longleftrightarrow>
     c = 9 \<or> (0x20 \<le> c \<and> c \<le> 0x2F) \<or> (0x3B \<le> c \<and> c \<le> 0x40)
       \<or> (0x5B \<le> c \<and> c \<le> 0x60) \<or> (0x7B \<le> c \<and> c \<le> 0x7E)"

definition digits_upto :: "nat \<Rightarrow> nat \<Rightarrow> jsstring \<Rightarrow> bool" where
  "digits_upto lo hi s \<longleftrightarrow> lo \<le> length s \<and> length s \<le> hi \<and> list_all is_digit s"

definition time_token :: "jsstring \<Rightarrow> (nat \<times> nat \<times> nat) option" where
  "time_token s =
     (case split_on 58 s of
        [a, b, c] \<Rightarrow>
          if digits_upto 1 2 a \<and> digits_upto 1 2 b \<and> digits_upto 1 2 c
          then Some (read_digits a, read_digits b, read_digits c) else None
      | _ \<Rightarrow> None)"

fun index_of :: "'a \<Rightarrow> 'a list \<Rightarrow> nat option" where
  "index_of x [] = None"
| "index_of x (y # ys) = (if x = y then Some 0 else map_option Suc (index_of x ys))"

definition month_token :: "jsstring \<Rightarrow> nat option" where
  "month_token s =
     map_option Suc
       (index_of (map ascii_lower (take 3 s)) (map (map ascii_lower) month_names))"

record date_fields =
  found_time :: "(nat \<times> nat \<times> nat) option"
  found_day :: "nat option"
  found_month :: "nat option"
  found_year :: "nat option"

definition date_token :: "date_fields \<Rightarrow> jsstring \<Rightarrow> date_fields" where
  "date_token f s =
     (if found_time f = None \<and> time_token s \<noteq> None then f\<lparr>found_time := time_token s\<rparr>
      else if found_day f = None \<and> digits_upto 1 2 s then f\<lparr>found_day := Some (read_digits s)\<rparr>
      else if found_month f = None \<and> month_token s \<noteq> None
        then f\<lparr>found_month := month_token s\<rparr>
      else if found_year f = None \<and> digits_upto 2 4 s
        then f\<lparr>found_year := Some (read_digits s)\<rparr>
      else f)"

definition full_year :: "nat \<Rightarrow> nat" where
  "full_year y = (if 70 \<le> y \<and> y \<le> 99 then y + 1900 else if y \<le> 69 then y + 2000 else y)"

definition date_of_fields :: "date_fields \<Rightarrow> int option" where
  "date_of_fields f =
     (case (found_time f, found_day f, found_month f, found_year f) of
        (Some (hh, mm, ss), Some d, Some m, Some y) \<Rightarrow>
          if d < 1 \<or> 31 < d \<or> full_year y < 1601 \<or> 23 < hh \<or> 59 < mm \<or> 59 < ss then None
          else Some (days_from_civil (int (full_year y)) (int m) (int d) * 86400000
                     + int hh * 3600000 + int mm * 60000 + int ss * 1000)
      | _ \<Rightarrow> None)"

definition cookie_date :: "jsstring \<Rightarrow> int option" where
  "cookie_date s =
     date_of_fields
       (foldl date_token
          \<lparr>found_time = None, found_day = None, found_month = None, found_year = None\<rparr>
          (filter (\<lambda>t. t \<noteq> []) (split_where is_delimiter s)))"

definition name_value :: "jsstring \<Rightarrow> jsstring \<times> jsstring" where
  "name_value s =
     (if 61 \<in> set s
      then (trim (takeWhile (\<lambda>c. c \<noteq> 61) s), trim (tl (dropWhile (\<lambda>c. c \<noteq> 61) s)))
      else ([], trim s))"

definition expires_attribute :: "jsstring list \<Rightarrow> int option" where
  "expires_attribute attrs =
     foldl (\<lambda>found a.
              (case name_value a of
                 (n, v) \<Rightarrow>
                   if map ascii_lower n = str ''expires'' \<and> cookie_date v \<noteq> None
                   then cookie_date v else found))
       None attrs"

definition store_cookie :: "jsstring \<Rightarrow> world \<Rightarrow> world" where
  "store_cookie s w =
     (case split_on 59 s of
        [] \<Rightarrow> w
      | nv # attrs \<Rightarrow>
          (case name_value nv of
             (name, v) \<Rightarrow>
               if name = [] \<and> v = [] then w
               else if (case expires_attribute attrs of None \<Rightarrow> False | Some t \<Rightarrow> t \<le> clock w)
                 then w\<lparr>cookie_jar := filter (\<lambda>(n, x). n \<noteq> name) (cookie_jar w)\<rparr>
               else w\<lparr>cookie_jar := obj_put name v (cookie_jar w)\<rparr>))"

fun join_cookies :: "(jsstring \<times> jsstring) list \<Rightarrow> jsstring" where
  "join_cookies [] = []"
| "join_cookies [(n, v)] = (if n = [] then v else n @ str ''='' @ v)"
| "join_cookies ((n, v) # c # cs) =
     (if n = [] then v else n @ str ''='' @ v) @ str ''; '' @ join_cookies (c # cs)"

definition document_cookie_get ::
  "('n, 'e) browser_scheme \<Rightarrow> world \<Rightarrow> (jsstring, world) completion" where
  "document_cookie_get env w =
     (if throws env ReadCookie then Throw w else Normal (join_cookies (cookie_jar w)) w)"

definition document_cookie_set ::
  "('n, 'e) browser_scheme \<Rightarrow> jsstring \<Rightarrow> world \<Rightarrow> (unit, world) completion" where
  "document_cookie_set env s w =
     (if throws env (WriteCookie s) then Throw w else Normal () (store_cookie s w))"

section \<open>The cookie functions of useStorage.ts\<close>

datatype SameSite = Strict | Lax | SameSiteNone

fun sameSite_text :: "SameSite \<Rightarrow> jsstring" where
  "sameSite_text Strict = str ''Strict''"
| "sameSite_text Lax = str ''Lax''"
| "sameSite_text SameSiteNone = str ''None''"

text \<open>
  \<open>IUseStorageOptions['cookieOptions']\<close>: every field may be left out (\<open>None\<close>), and so
  may the whole object. \<open>expires\<close> is a number of days; whole days are kept.
\<close>

record cookieOptions =
  expires :: "int option"
  path :: "jsstring option"
  domain :: "jsstring option"
  secure :: "bool option"
  sameSite :: "SameSite option"

definition no_options :: cookieOptions where
  "no_options = \<lparr>expires = None, path = None, domain = None, secure = None, sameSite = None\<rparr>"

text \<open>The loop of \<open>getCookie\<close> over the pieces of \<open>document.cookie.split(';')\<close>.\<close>

fun find_cookie :: "jsstring \<Rightarrow> jsstring list \<Rightarrow> jsstring option" where
  "find_cookie nameEQ [] = None"
| "find_cookie nameEQ (c # cookies) =
     (let cookie = dropWhile (\<lambda>x. x = 32) c
      in if take (length nameEQ) cookie = nameEQ then Some (drop (length nameEQ) cookie)
         else find_cookie nameEQ cookies)"

definition getCookie ::
  "('n, 'e) browser_scheme \<Rightarrow> jsstring \<Rightarrow> world \<Rightarrow> (jsstring option, world) completion" where
  "getCookie env name w =
     (if \<not> document_defined env then Normal None w
      else
        (case document_cookie_get env w of
           Throw w' \<Rightarrow> Throw w'
         | Normal cookies w' \<Rightarrow>
             (case find_cookie (name @ str ''='') (split_on 59 cookies) of
                None \<Rightarrow> Normal None w'
              | Some enc \<Rightarrow>
                  (case decodeURIComponent enc of
                     None \<Rightarrow> Throw w'
                   | Some v \<Rightarrow> Normal (Some v) w'))))"

text \<open>
  The cookie string \<open>setCookie\<close> builds, from the time of \<open>new Date()\<close>, the name, the
  encoded value and the options.
\<close>

definition cookie_string :: "int \<Rightarrow> jsstring \<Rightarrow> jsstring \<Rightarrow> cookieOptions option \<Rightarrow> jsstring" where
  "cookie_string now name enc options =
     (let opts = (case options of None \<Rightarrow> no_options | Some o' \<Rightarrow> o');
          path' = (case path opts of None \<Rightarrow> str ''/'' | Some p \<Rightarrow> p);
          secure' = (case secure opts of None \<Rightarrow> False | Some b \<Rightarrow> b);
          sameSite' = (case sameSite opts of None \<Rightarrow> Lax | Some x \<Rightarrow> x);
          s0 = name @ str ''='' @ enc;
          s1 = (if expires opts \<noteq> None \<and> expires opts \<noteq> Some 0
                  then s0 @ str ''; expires=''
                         @ toUTCString (now + the (expires opts) * 24 * 60 * 60 * 1000)
                else if expires opts = None
                  then s0 @ str ''; expires='' @ toUTCString (now + 365 * 24 * 60 * 60 * 1000)
                else s0);
          s2 = s1 @ str ''; path='' @ path';
          s3 = (case domain opts of
                  None \<Rightarrow> s2
                | Some d \<Rightarrow> if d \<noteq> [] then s2 @ str ''; domain='' @ d else s2);
          s4 = (if secure' then s3 @ str ''; secure'' else s3)
      in s4 @ str ''; SameSite='' @ sameSite_text sameSite')"

definition setCookie ::
  "('n, 'e) browser_scheme \<Rightarrow> jsstring \<Rightarrow> jsstring \<Rightarrow> cookieOptions option \<Rightarrow> world
     \<Rightarrow> (unit, world) completion" where
  "setCookie env name v options w =
     (if \<not> document_defined env then Normal () w
      else
        (case encodeURIComponent v of
           None \<Rightarrow> Throw w
         | Some enc \<Rightarrow> document_cookie_set env (cookie_string (clock w) name enc options) w))"

definition removeCookie ::
  "('n, 'e) browser_scheme \<Rightarrow> jsstring \<Rightarrow> cookieOptions option \<Rightarrow> world
     \<Rightarrow> (unit, world) completion" where
  "removeCookie env name options w =
     (if \<not> document_defined env then Normal () w
      else
        (let opts = (case options of None \<Rightarrow> no_options | Some o' \<Rightarrow> o');
             path' = (case path opts of None \<Rightarrow> str ''/'' | Some p \<Rightarrow> p);
             s0 = name @ str ''=; expires=Thu, 01 Jan 1970 00:00:00 UTC; path='' @ path';
             s1 = (case domain opts of
                     None \<Rightarrow> s0
                   | Some d \<Rightarrow> if d \<noteq> [] then s0 @ str ''; domain='' @ d else s0)
         in document_cookie_set env s1 w))"

section \<open>The hook useStorage\<close>

text \<open>
  What one use of the hook holds: the React state \<open>value\<close>, the refs
  \<open>lastValueRef\<close>, \<open>keyRef\<close>, \<open>storageTypeRef\<close> and \<open>onChangeRef\<close>, and, to observe
  the notifications, the arguments \<open>onChange\<close> was called with. \<open>null\<close> is \<open>JNull\<close>.
  A callback \<open>onChange\<close> is given by the arguments on which it throws.
\<close>

record 'n hook_state =
  value_state :: "'n jsval"
  lastValueRef :: "jsstring option"
  keyRef :: jsstring
  storageTypeRef :: StorageType
  onChangeRef :: "('n jsval \<Rightarrow> bool) option"
  notified :: "'n jsval list"

text \<open>The options given to the hook; a field left out is \<open>None\<close>.\<close>

record 'n useStorage_options =
  opt_storageType :: "StorageType option"
  opt_defaultValue :: "'n jsval option"
  opt_sync :: "bool option"
  opt_cookieOptions :: "cookieOptions option"
  opt_onChange :: "('n jsval \<Rightarrow> bool) option"

fun storageType_text :: "StorageType \<Rightarrow> jsstring" where
  "storageType_text localStorage = str ''localStorage''"
| "storageType_text sessionStorage = str ''sessionStorage''"
| "storageType_text cookie = str ''cookie''"

text \<open>The codec: a string is stored as it is, anything else as its JSON text; a raw
  text is parsed as JSON, and taken as a string when that fails.\<close>

definition encode :: "'n number_ops \<Rightarrow> 'n jsval \<Rightarrow> jsstring" where
  "encode ops newValue = (case newValue of JStr s \<Rightarrow> s | _ \<Rightarrow> stringify ops newValue)"

definition decode :: "'n number_ops \<Rightarrow> jsstring \<Rightarrow> 'n jsval" where
  "decode ops rawValue =
     (case JSON_parse ops rawValue of Some parsed \<Rightarrow> parsed | None \<Rightarrow> JStr rawValue)"

text \<open>The three-way read of the raw value, as in the initialiser and in \<open>checkValue\<close>.\<close>

definition read_raw ::
  "('n, 'e) browser_scheme \<Rightarrow> StorageType \<Rightarrow> jsstring \<Rightarrow> world
     \<Rightarrow> (jsstring option, world) completion" where
  "read_raw env t k w =
     (case t of
        cookie \<Rightarrow> getCookie env k w
      | localStorage \<Rightarrow> getItem env localStorage k w
      | sessionStorage \<Rightarrow> getItem env sessionStorage k w)"

text \<open>\<open>defaultValue ?? null\<close>, for a \<open>defaultValue\<close> that is a value or \<open>null\<close>.\<close>

definition or_null :: "'n jsval \<Rightarrow> 'n jsval" where
  "or_null defaultValue = (if defaultValue = JNull then JNull else defaultValue)"

text \<open>The initialiser of \<open>useState\<close>: the first value, and the world (a warning may
  have been printed).\<close>

definition initial_value ::
  "('n, 'e) browser_scheme \<Rightarrow> StorageType \<Rightarrow> jsstring \<Rightarrow> 'n jsval \<Rightarrow> world
     \<Rightarrow> 'n jsval \<times> world" where
  "initial_value env storageType k defaultValue w =
     (if \<not> window_defined env then (or_null defaultValue, w)
      else
        (case read_raw env storageType k w of
           Throw w' \<Rightarrow>
             (or_null defaultValue,
              console_warn (str ''Error reading storage for key '' @ [34] @ k @ [34, 58]) w')
         | Normal rawValue w' \<Rightarrow>
             (case rawValue of
                None \<Rightarrow> (or_null defaultValue, w')
              | Some raw \<Rightarrow> (decode (numbers env) raw, w'))))"

text \<open>The first render: the options with their defaults (\<open>localStorage\<close>, \<open>null\<close>),
  the state and the refs.\<close>

definition useStorage ::
  "('n, 'e) browser_scheme \<Rightarrow> jsstring \<Rightarrow> 'n useStorage_options \<Rightarrow> world
     \<Rightarrow> 'n hook_state \<times> world" where
  "useStorage env k options w =
     (let storageType = (case opt_storageType options of None \<Rightarrow> localStorage | Some t \<Rightarrow> t);
          defaultValue = (case opt_defaultValue options of None \<Rightarrow> JNull | Some d \<Rightarrow> d)
      in case initial_value env storageType k defaultValue w of
           (v, w') \<Rightarrow>
             (\<lparr>value_state = v, lastValueRef = None, keyRef = k, storageTypeRef = storageType,
               onChangeRef = opt_onChange options, notified = []\<rparr>, w'))"

definition hasValue :: "'n hook_state \<Rightarrow> bool" where
  "hasValue h \<longleftrightarrow> value_state h \<noteq> JNull"

text \<open>\<open>setValueState(v); onChangeRef.current?.(v)\<close>.\<close>

definition publish ::
  "'n jsval \<Rightarrow> world \<times> 'n hook_state \<Rightarrow> (unit, world \<times> 'n hook_state) completion" where
  "publish v s =
     (case s of
        (w, h) \<Rightarrow>
          (case onChangeRef h of
             None \<Rightarrow> Normal () (w, h\<lparr>value_state := v\<rparr>)
           | Some onChange \<Rightarrow>
               if onChange v then Throw (w, h\<lparr>value_state := v, notified := notified h @ [v]\<rparr>)
               else Normal () (w, h\<lparr>value_state := v, notified := notified h @ [v]\<rparr>)))"

text \<open>The three-way removal and the three-way write of \<open>setValue\<close>.\<close>

definition remove_raw ::
  "('n, 'e) browser_scheme \<Rightarrow> cookieOptions option \<Rightarrow> StorageType \<Rightarrow> jsstring \<Rightarrow> world
     \<Rightarrow> (unit, world) completion" where
  "remove_raw env cookieOptions t k w =
     (case t of
        cookie \<Rightarrow> removeCookie env k cookieOptions w
      | localStorage \<Rightarrow> removeItem env localStorage k w
      | sessionStorage \<Rightarrow> removeItem env sessionStorage k w)"

definition write_raw ::
  "('n, 'e) browser_scheme \<Rightarrow> cookieOptions option \<Rightarrow> StorageType \<Rightarrow> jsstring \<Rightarrow> jsstring
     \<Rightarrow> world \<Rightarrow> (unit, world) completion" where
  "write_raw env cookieOptions t k stringValue w =
     (case t of
        cookie \<Rightarrow> setCookie env k stringValue cookieOptions w
      | localStorage \<Rightarrow> setItem env localStorage k stringValue w
      | sessionStorage \<Rightarrow> setItem env sessionStorage k stringValue w)"

text \<open>The body of the \<open>try\<close> block of \<open>setValue\<close>.\<close>

definition setValue_try ::
  "('n, 'e) browser_scheme \<Rightarrow> cookieOptions option \<Rightarrow> 'n jsval \<Rightarrow> world \<times> 'n hook_state
     \<Rightarrow> (unit, world \<times> 'n hook_state) completion" where
  "setValue_try env cookieOptions newValue s =
     (case s of
        (w, h) \<Rightarrow>
          if newValue = JNull then
            (case remove_raw env cookieOptions (storageTypeRef h) (keyRef h) w of
               Throw w' \<Rightarrow> Throw (w', h)
             | Normal u w' \<Rightarrow> publish newValue (w', h\<lparr>lastValueRef := None\<rparr>))
          else
            (case write_raw env cookieOptions (storageTypeRef h) (keyRef h)
                    (encode (numbers env) newValue) w of
               Throw w' \<Rightarrow> Throw (w', h)
             | Normal u w' \<Rightarrow>
                 publish newValue
                   (w', h\<lparr>lastValueRef := Some (encode (numbers env) newValue)\<rparr>)))"

definition setValue ::
  "('n, 'e) browser_scheme \<Rightarrow> cookieOptions option \<Rightarrow> 'n jsval \<Rightarrow> world \<times> 'n hook_state
     \<Rightarrow> (unit, world \<times> 'n hook_state) completion" where
  "setValue env cookieOptions newValue s =
     (if \<not> window_defined env then Normal () s
      else
        (case setValue_try env cookieOptions newValue s of
           Normal u s' \<Rightarrow> Normal () s'
         | Throw (w', h') \<Rightarrow>
             Normal ()
               (console_warn
                  (str ''Error setting '' @ storageType_text (storageTypeRef h')
                     @ str '' for key '' @ [34] @ keyRef h' @ [34, 58]) w', h')))"

definition removeValue ::
  "('n, 'e) browser_scheme \<Rightarrow> cookieOptions option \<Rightarrow> world \<times> 'n hook_state
     \<Rightarrow> (unit, world \<times> 'n hook_state) completion" where
  "removeValue env cookieOptions s = setValue env cookieOptions JNull s"

text \<open>\<open>clear\<close>: only \<open>localStorage\<close> and \<open>sessionStorage\<close> have a branch.\<close>

definition clear_storage ::
  "('n, 'e) browser_scheme \<Rightarrow> world \<times> 'n hook_state
     \<Rightarrow> (unit, world \<times> 'n hook_state) completion" where
  "clear_storage env s =
     (case s of
        (w, h) \<Rightarrow>
          if \<not> window_defined env then Normal () s
          else
            (case (case storageTypeRef h of
                     localStorage \<Rightarrow> clear_items env localStorage w
                   | sessionStorage \<Rightarrow> clear_items env sessionStorage w
                   | cookie \<Rightarrow> Normal () w) of
               Normal u w' \<Rightarrow> Normal () (w', h)
             | Throw w' \<Rightarrow>
                 Normal ()
                   (console_warn
                      (str ''Error clearing '' @ storageType_text (storageTypeRef h) @ [58]) w',
                    h)))"

text \<open>
  \<open>checkValue\<close>, the closure registered with the polling manager: only a raw value
  that differs from \<open>lastValueRef\<close> is decoded and published; any exception is dropped.
\<close>

definition checkValue_try ::
  "('n, 'e) browser_scheme \<Rightarrow> world \<times> 'n hook_state
     \<Rightarrow> (unit, world \<times> 'n hook_state) completion" where
  "checkValue_try env s =
     (case s of
        (w, h) \<Rightarrow>
          (case read_raw env (storageTypeRef h) (keyRef h) w of
             Throw w' \<Rightarrow> Throw (w', h)
           | Normal rawValue w' \<Rightarrow>
               if rawValue \<noteq> lastValueRef h then
                 publish
                   (case rawValue of None \<Rightarrow> JNull | Some raw \<Rightarrow> decode (numbers env) raw)
                   (w', h\<lparr>lastValueRef := rawValue\<rparr>)
               else Normal () (w', h)))"

definition checkValue ::
  "('n, 'e) browser_scheme \<Rightarrow> world \<times> 'n hook_state
     \<Rightarrow> (unit, world \<times> 'n hook_state) completion" where
  "checkValue env s =
     (case checkValue_try env s of
        Normal u s' \<Rightarrow> Normal () s'
      | Throw s' \<Rightarrow> Normal () s')"

section \<open>A number type and a browser for worked examples\<close>

text \<open>
  The integers and the three numbers that are not finite, with the decimal text of an
  integer and the reading of an integer literal; a literal with a fraction or an
  exponent is outside this small instance and reads as \<open>NaN\<close>.
\<close>

datatype jsnumber = Fin int | NaN | PosInfinity | NegInfinity

fun int_toString :: "jsnumber \<Rightarrow> jsstring" where
  "int_toString (Fin i) = (if i < 0 then 45 # dec_digits (nat (- i)) else dec_digits (nat i))"
| "int_toString NaN = str ''NaN''"
| "int_toString PosInfinity = str ''Infinity''"
| "int_toString NegInfinity = str ''-Infinity''"

definition int_ofLiteral :: "jsstring \<Rightarrow> jsnumber" where
  "int_ofLiteral lit =
     (case lit of
        [] \<Rightarrow> NaN
      | c # cs \<Rightarrow>
          if c = 45 \<and> cs \<noteq> [] \<and> list_all is_digit cs then Fin (- int (read_digits cs))
          else if list_all is_digit lit then Fin (int (read_digits lit))
          else NaN)"

fun int_isFinite :: "jsnumber \<Rightarrow> bool" where
  "int_isFinite (Fin i) = True"
| "int_isFinite NaN = False"
| "int_isFinite PosInfinity = False"
| "int_isFinite NegInfinity = False"

definition int_ops :: "jsnumber number_ops" where
  "int_ops = \<lparr>isFinite = int_isFinite, Number_toString = int_toString,
              StringToNumber = int_ofLiteral\<rparr>"

fun never :: "access \<Rightarrow> bool" where
  "never a = False"

fun quota_exceeded :: "access \<Rightarrow> bool" where
  "quota_exceeded (SetItem t k v) = True"
| "quota_exceeded a = False"

text \<open>A browser in which nothing throws, one whose storage is full, and a world with
  nothing stored, on 2 November 2026 at noon.\<close>

definition quiet_browser :: "jsnumber browser" where
  "quiet_browser = \<lparr>window_defined = True, clearInterval_defined = True,
     document_defined = True, throws = never, numbers = int_ops\<rparr>"

definition full_browser :: "jsnumber browser" where
  "full_browser = \<lparr>window_defined = True, clearInterval_defined = True,
     document_defined = True, throws = quota_exceeded, numbers = int_ops\<rparr>"

definition empty_world :: world where
  "empty_world = \<lparr>localStorage_items = Map.empty, sessionStorage_items = Map.empty,
     cookie_jar = [], clock = 1793620800123, warnings = []\<rparr>"

definition fresh_hook :: "StorageType \<Rightarrow> jsnumber hook_state" where
  "fresh_hook t = \<lparr>value_state = JNull, lastValueRef = None, keyRef = str ''k'',
     storageTypeRef = t, onChangeRef = None, notified = []\<rparr>"

definition fallback_options :: "jsnumber useStorage_options" where
  "fallback_options = \<lparr>opt_storageType = Some localStorage,
     opt_defaultValue = Some (JStr (str ''fallback'')), opt_sync = None,
     opt_cookieOptions = None, opt_onChange = None\<rparr>"

text \<open>A text that cannot start a JSON value: it is empty after the white space, or
  starts with something other than a brace, a bracket, a quotation mark, a minus sign,
  a digit, or the first letter of \<open>true\<close>, \<open>false\<close> and \<open>null\<close>.\<close>

definition plain_text :: "jsstring \<Rightarrow> bool" where
  "plain_text s =
     (case skip_ws s of
        [] \<Rightarrow> True
      | c # cs \<Rightarrow> \<not> is_digit c \<and> c \<notin> set [123, 91, 34, 45, 116, 102, 110])"






text \<open>
  What the round trip through JSON needs. A numeric literal is a text that
  \<open>scan_number\<close> reads to its end. The platform's numbers round-trip when the text of
  every finite number is such a literal and denotes that number again. A value is
  representable when its numbers, at any depth, are finite; the names of the properties
  of an object are distinct, as they are in every JavaScript object.
\<close>

definition number_literal :: "jsstring \<Rightarrow> bool" where
  "number_literal lit \<longleftrightarrow> scan_number lit = Some (lit, [])"

definition numbers_round_trip :: "'n number_ops \<Rightarrow> bool" where
  "numbers_round_trip ops \<longleftrightarrow>
     (\<forall>n. isFinite ops n \<longrightarrow>
        number_literal (Number_toString ops n)
        \<and> StringToNumber ops (Number_toString ops n) = n)"

fun representable :: "'n number_ops \<Rightarrow> 'n jsval \<Rightarrow> bool" where
  "representable ops JNull = True"
| "representable ops (JBool b) = True"
| "representable ops (JNum n) = isFinite ops n"
| "representable ops (JStr s) = True"
| "representable ops (JArr vs) = (\<forall>v \<in> set vs. representable ops v)"
| "representable ops (JObj kvs) =
     (distinct (map fst kvs) \<and> (\<forall>kv \<in> set kvs. representable ops (snd kv)))"

text \<open>What may follow a value inside an array or an object, or at the end of the text.\<close>

definition value_end :: "jsstring \<Rightarrow> bool" where
  "value_end rest = (case rest of [] \<Rightarrow> True | c # cs \<Rightarrow> c = 44 \<or> c = 93 \<or> c = 125)"

fun is_text :: "'n jsval \<Rightarrow> bool" where
  "is_text (JStr s) = True"
| "is_text v = False"

definition sample_value :: "jsnumber jsval" where
  "sample_value =
     JArr [JNum (Fin (- 120)), JBool True, JNull,
           JObj [(str ''a'', JStr [34, 10, 120]), (str ''b'', JArr [])]]"

section \<open>Properties of the polling manager\<close>

definition poll_inv :: "'cb poll_state \<Rightarrow> bool" where
  "poll_inv s \<longleftrightarrow>
     distinct (subscribers s) \<and>
     (case intervalId s of
        None \<Rightarrow> subscribers s = [] \<and> intervals s = []
      | Some h \<Rightarrow> subscribers s \<noteq> [] \<and> intervals s = [h])"

lemma poll_inv_init: "poll_inv (pollingManager h)"
  by (simp add: poll_inv_def pollingManager_def)

lemma poll_inv_subscribe:
  assumes "window_defined env" and "poll_inv s"
  shows "poll_inv (subscribe env c s)"
  using assms
  by (cases "intervalId s")
     (auto simp: poll_inv_def subscribe_def set_add_def startPolling_def setInterval_def Let_def)

lemma poll_inv_unsubscribe:
  assumes "clearInterval_defined env" and "poll_inv s"
  shows "poll_inv (unsubscribe env c s)"
  using assms
  by (cases "intervalId s")
     (auto simp: poll_inv_def unsubscribe_def set_delete_def stopPolling_def clearInterval_def
        Let_def distinct_removeAll)

lemma poll_inv_step:
  assumes "clearInterval_defined env" and "poll_inv s"
  shows "poll_inv (poll_step env s x)"
proof (cases x)
  case (Register c)
  show ?thesis
  proof (cases "window_defined env")
    case True
    with assms Register show ?thesis
      by (simp add: register_binding_def poll_inv_subscribe)
  next
    case False
    with assms Register show ?thesis
      by (simp add: register_binding_def)
  qed
next
  case (Release c)
  with assms show ?thesis by (simp add: poll_inv_unsubscribe)
qed

lemma poll_inv_run:
  assumes "clearInterval_defined env" and "poll_inv s"
  shows "poll_inv (run_ops env ops s)"
  using assms(2) unfolding run_ops_def
proof (induction ops arbitrary: s)
  case Nil
  then show ?case by simp
next
  case (Cons x xs)
  have "poll_inv (poll_step env s x)"
    using Cons.prems by (rule poll_inv_step [OF assms(1)])
  then show ?case using Cons.IH by simp
qed

text \<open>
  C5. After any sequence of registrations (the polling effect of a Binding) and releases
  (the function \<open>subscribe\<close> returned), starting from the fresh singleton: the manager
  holds a timer handle exactly when its subscriber set is not empty, the runtime then
  has exactly that one timer alive, and none when the set is empty. So the first
  registration starts the timer, further registrations add none, and the release of the
  last one stops it. \<open>clearInterval\<close> has to exist, as it does wherever
  \<open>setInterval\<close> does.
\<close>

theorem poller_timer_iff_subscribers:
  assumes "clearInterval_defined env"
  shows "(intervalId (run_ops env ops (pollingManager h)) \<noteq> None
            \<longleftrightarrow> subscribers (run_ops env ops (pollingManager h)) \<noteq> [])
       \<and> length (intervals (run_ops env ops (pollingManager h)))
            = (if subscribers (run_ops env ops (pollingManager h)) = [] then 0 else 1)
       \<and> (\<forall>t. intervalId (run_ops env ops (pollingManager h)) = Some t
            \<longrightarrow> intervals (run_ops env ops (pollingManager h)) = [t])"
proof -
  have "poll_inv (run_ops env ops (pollingManager h))"
    using assms poll_inv_init by (rule poll_inv_run)
  then show ?thesis
    by (cases "intervalId (run_ops env ops (pollingManager h))") (auto simp: poll_inv_def)
qed

theorem poller_timer_iff_subscribers_witness:
  "subscribers (run_ops \<lparr>window_defined = True, clearInterval_defined = True\<rparr>
       [Register (1::nat), Register 2, Register 3, Release 1] (pollingManager 7)) = [2, 3]
   \<and> intervals (run_ops \<lparr>window_defined = True, clearInterval_defined = True\<rparr>
       [Register (1::nat), Register 2, Register 3, Release 1] (pollingManager 7)) = [7]
   \<and> intervals (run_ops \<lparr>window_defined = True, clearInterval_defined = True\<rparr>
       [Register (1::nat), Register 2, Release 2, Release 1] (pollingManager 7)) = []"
  using poller_timer_iff_subscribers
    [of "\<lparr>window_defined = True, clearInterval_defined = True\<rparr>"
        "[Register (1::nat), Register 2, Register 3, Release 1]" 7]
  by (simp add: run_ops_def register_binding_def subscribe_def unsubscribe_def set_add_def
      set_delete_def startPolling_def stopPolling_def setInterval_def clearInterval_def
      pollingManager_def)



















text \<open>
  C10. Subscribing a callback that is already a subscriber leaves the subscriber set as
  it was, and a callback is never a subscriber twice. Calling the returned unsubscribe
  function when its callback is not a subscriber (it has been removed already) changes
  nothing at all, neither the set nor the timer, whatever other subscribers there are:
  in every state in which no timer is held over an empty set, so in every state that
  satisfies the invariant of the manager, so in every state the manager reaches from
  the fresh singleton. In any state at all, a second call directly after the first
  changes nothing.
\<close>

theorem subscribe_once_unsubscribe_idempotent:
  "(callback \<in> set (subscribers s)
      \<longrightarrow> subscribers (subscribe env callback s) = subscribers s)
   \<and> (distinct (subscribers s) \<longrightarrow> distinct (subscribers (subscribe env callback s)))
   \<and> unsubscribe env callback (unsubscribe env callback s) = unsubscribe env callback s
   \<and> (callback \<notin> set (subscribers s) \<and> (subscribers s = [] \<longrightarrow> intervalId s = None)
        \<longrightarrow> unsubscribe env callback s = s)
   \<and> (callback \<notin> set (subscribers s) \<and> poll_inv s \<longrightarrow> unsubscribe env callback s = s)
   \<and> (clearInterval_defined env
        \<and> callback \<notin> set (subscribers (run_ops env ops (pollingManager h)))
        \<longrightarrow> unsubscribe env callback (run_ops env ops (pollingManager h))
            = run_ops env ops (pollingManager h))"
proof -
  have a: "callback \<in> set (subscribers s)
             \<Longrightarrow> subscribers (subscribe env callback s) = subscribers s"
    by (simp add: subscribe_def set_add_def startPolling_def setInterval_def Let_def)
  have b: "distinct (subscribers s) \<Longrightarrow> distinct (subscribers (subscribe env callback s))"
    by (simp add: subscribe_def set_add_def startPolling_def setInterval_def Let_def)
  have c: "unsubscribe env callback (unsubscribe env callback s) = unsubscribe env callback s"
    by (cases "intervalId s")
       (simp_all add: unsubscribe_def set_delete_def stopPolling_def clearInterval_def Let_def)
  have d: "unsubscribe env callback s' = s'"
    if "callback \<notin> set (subscribers s')" "subscribers s' = [] \<longrightarrow> intervalId s' = None"
    for s' :: "'a poll_state"
    using that by (auto simp: unsubscribe_def set_delete_def Let_def)
  have e: "subscribers s' = [] \<longrightarrow> intervalId s' = None" if "poll_inv s'"
    for s' :: "'a poll_state"
    using that by (cases "intervalId s'") (simp_all add: poll_inv_def)
  have f: "poll_inv (run_ops env ops (pollingManager h :: 'a poll_state))"
    if "clearInterval_defined env"
    using that poll_inv_init by (rule poll_inv_run)
  from a b c d [of s] d [OF _ e, of s] d [OF _ e [OF f]] show ?thesis by blast
qed

theorem subscribe_once_unsubscribe_idempotent_witness:
  "subscribers (subscribe \<lparr>window_defined = True, clearInterval_defined = True\<rparr> (5::nat)
      \<lparr>intervalId = Some 0, subscribers = [4, 5], intervals = [0], next_handle = 1\<rparr>) = [4, 5]
   \<and> poll_inv \<lparr>intervalId = Some 0, subscribers = [4, 5::nat], intervals = [0], next_handle = 1\<rparr>
   \<and> run_ops \<lparr>window_defined = True, clearInterval_defined = True\<rparr>
        [Register 4, Register 6, Release 6] (pollingManager 0)
      = \<lparr>intervalId = Some 0, subscribers = [4::nat], intervals = [0], next_handle = 1\<rparr>
   \<and> unsubscribe \<lparr>window_defined = True, clearInterval_defined = True\<rparr> (6::nat)
        \<lparr>intervalId = Some 0, subscribers = [4], intervals = [0], next_handle = 1\<rparr>
      = \<lparr>intervalId = Some 0, subscribers = [4], intervals = [0], next_handle = 1\<rparr>"
  using subscribe_once_unsubscribe_idempotent
    [of 5 "\<lparr>intervalId = Some 0, subscribers = [4, 5], intervals = [0], next_handle = 1\<rparr>"
        "\<lparr>window_defined = True, clearInterval_defined = True\<rparr>" "[]" 0]
    subscribe_once_unsubscribe_idempotent
    [of 6 "\<lparr>intervalId = Some 0, subscribers = [4], intervals = [0], next_handle = 1\<rparr>"
        "\<lparr>window_defined = True, clearInterval_defined = True\<rparr>"
        "[Register 4, Register 6, Release 6]" 0]
  by (simp add: run_ops_def register_binding_def subscribe_def unsubscribe_def set_add_def
      set_delete_def startPolling_def stopPolling_def setInterval_def clearInterval_def
      pollingManager_def poll_inv_def)

section \<open>Properties of the hook\<close>

lemma initial_value_absent:
  assumes "window_defined env" and "read_raw env t k w = Normal None w'"
  shows "initial_value env t k d w = (d, w')"
  using assms by (simp add: initial_value_def or_null_def)

lemma useStorage_absent:
  assumes "window_defined env"
    and "read_raw env (case opt_storageType options of None \<Rightarrow> localStorage | Some t \<Rightarrow> t) k w
           = Normal None w'"
  shows "value_state (fst (useStorage env k options w))
           = (case opt_defaultValue options of None \<Rightarrow> JNull | Some d \<Rightarrow> d)"
    and "hasValue (fst (useStorage env k options w))
           \<longleftrightarrow> (case opt_defaultValue options of None \<Rightarrow> False | Some d \<Rightarrow> d \<noteq> JNull)"
  using assms
  by (simp_all add: useStorage_def Let_def initial_value_absent hasValue_def
      split: option.splits)

text \<open>
  C1. The key \<open>k\<close> has no value in \<open>localStorage\<close> and the default is the text
  \<open>fallback\<close>: the hook's value is \<open>fallback\<close>, as the claim says, but \<open>hasValue\<close> is
  true, not false, although nothing is stored. \<open>hasValue\<close> is documented as telling
  whether the value exists in storage.
\<close>

theorem hasValue_with_default:
  "localStorage_items empty_world (str ''k'') = None
   \<and> value_state (fst (useStorage quiet_browser (str ''k'') fallback_options empty_world))
       = JStr (str ''fallback'')
   \<and> hasValue (fst (useStorage quiet_browser (str ''k'') fallback_options empty_world))"
  by (simp add: useStorage_def initial_value_def read_raw_def getItem_def items_def
      quiet_browser_def empty_world_def fallback_options_def or_null_def hasValue_def)

lemma write_raw_Throw:
  "write_raw env co t k v w = Throw w' \<Longrightarrow> w' = w"
  by (cases t)
     (auto simp: write_raw_def setItem_def setCookie_def document_cookie_set_def
        split: if_splits option.splits)

text \<open>
  C6. When the write to the backend throws in \<open>setValue(v)\<close>, \<open>v\<close> not null: the call
  completes normally, the state of the hook is what it was (the last observed raw value,
  the value shown, and no call of \<open>onChange\<close>), the backends are what they were, and one
  warning has been printed.
\<close>

theorem setValue_write_throws:
  assumes "window_defined env" and "newValue \<noteq> JNull"
    and "write_raw env cookieOptions (storageTypeRef h) (keyRef h)
           (encode (numbers env) newValue) w = Throw w'"
  shows "setValue env cookieOptions newValue (w, h)
           = Normal ()
               (console_warn
                  (str ''Error setting '' @ storageType_text (storageTypeRef h)
                     @ str '' for key '' @ [34] @ keyRef h @ [34, 58]) w, h)"
proof -
  have "w' = w" using assms(3) by (rule write_raw_Throw)
  with assms show ?thesis by (simp add: setValue_def setValue_try_def)
qed

theorem setValue_write_throws_witness:
  "setValue full_browser None (JNum (Fin 42)) (empty_world, fresh_hook localStorage)
     = Normal ()
         (empty_world\<lparr>warnings := [str ''Error setting localStorage for key '' @ [34, 107, 34, 58]]\<rparr>,
          fresh_hook localStorage)"
  using setValue_write_throws
    [of full_browser "JNum (Fin 42)" None "fresh_hook localStorage" empty_world empty_world]
  by (simp add: full_browser_def fresh_hook_def write_raw_def setItem_def console_warn_def
      empty_world_def str_def)

text \<open>
  C9, as the code has it. \<open>clear\<close> on the cookie backend changes nothing at all: the
  cookies stay, and no warning is printed. On \<open>localStorage\<close> and \<open>sessionStorage\<close>,
  in a browser and when the backend's \<open>clear()\<close> does not throw, every key of that
  backend is removed, and nothing else changes.
\<close>

theorem clear_by_backend:
  "(storageTypeRef h = cookie \<longrightarrow> clear_storage env (w, h) = Normal () (w, h))
   \<and> (window_defined env \<and> storageTypeRef h \<noteq> cookie
        \<and> \<not> throws env (ClearItems (storageTypeRef h))
      \<longrightarrow> clear_storage env (w, h) = Normal () (put_items (storageTypeRef h) Map.empty w, h)
          \<and> items (storageTypeRef h) (put_items (storageTypeRef h) Map.empty w) = Map.empty
          \<and> cookie_jar (put_items (storageTypeRef h) Map.empty w) = cookie_jar w
          \<and> warnings (put_items (storageTypeRef h) Map.empty w) = warnings w)"
  by (cases "storageTypeRef h")
     (simp_all add: clear_storage_def clear_items_def items_def put_items_def)

text \<open>A cookie \<open>a=1\<close> and a key in \<open>localStorage\<close>, with nothing printed yet.\<close>

theorem clear_by_backend_witness:
  "clear_storage quiet_browser (empty_world\<lparr>cookie_jar := [(str ''a'', str ''1'')]\<rparr>, fresh_hook cookie)
     = Normal () (empty_world\<lparr>cookie_jar := [(str ''a'', str ''1'')]\<rparr>, fresh_hook cookie)
   \<and> clear_storage quiet_browser
        (empty_world\<lparr>localStorage_items := [str ''k'' \<mapsto> str ''v'']\<rparr>, fresh_hook localStorage)
     = Normal () (empty_world, fresh_hook localStorage)"
  using clear_by_backend
    [of "fresh_hook cookie" quiet_browser "empty_world\<lparr>cookie_jar := [(str ''a'', str ''1'')]\<rparr>"]
    clear_by_backend
    [of "fresh_hook localStorage" quiet_browser
        "empty_world\<lparr>localStorage_items := [str ''k'' \<mapsto> str ''v'']\<rparr>"]
  by (simp add: fresh_hook_def quiet_browser_def put_items_def empty_world_def)

text \<open>
  C9, as the claim has it, fails: after \<open>clear\<close> on the cookie backend the console
  has no warning.
\<close>

theorem clear_cookie_no_warning:
  "warnings (fst (state_of (clear_storage quiet_browser (empty_world, fresh_hook cookie)))) = []"
  by (simp add: clear_storage_def fresh_hook_def quiet_browser_def empty_world_def)

lemma plain_text_no_parse:
  assumes "plain_text s"
  shows "JSON_parse ops s = None"
proof (cases "skip_ws s")
  case Nil
  then show ?thesis by (simp add: JSON_parse_def)
next
  case (Cons c cs)
  with assms have c: "\<not> is_digit c" "c \<noteq> 123" "c \<noteq> 91" "c \<noteq> 34" "c \<noteq> 45" "c \<noteq> 116"
    "c \<noteq> 102" "c \<noteq> 110"
    by (simp_all add: plain_text_def)
  from c(1) have "c \<noteq> 48" by (auto simp: is_digit_def)
  with c have "scan_number (c # cs) = None"
    by (simp add: scan_number_def scan_int_def scan_digits_def)
  with c Cons show ?thesis by (simp add: JSON_parse_def)
qed

text \<open>
  C2, as the code has it. A text that \<open>JSON.parse\<close> rejects comes back from the codec
  as the same text; so does, in particular, every text that cannot start a JSON value.
  A text that \<open>JSON.parse\<close> accepts comes back as the parsed value.
\<close>

theorem text_round_trip:
  "(JSON_parse ops s = None \<longrightarrow> decode ops (encode ops (JStr s)) = JStr s)
   \<and> (plain_text s \<longrightarrow> decode ops (encode ops (JStr s)) = JStr s)
   \<and> (\<forall>p. JSON_parse ops s = Some p \<longrightarrow> decode ops (encode ops (JStr s)) = p)"
  using plain_text_no_parse [of s ops] by (auto simp: decode_def encode_def)

theorem text_round_trip_witness:
  "plain_text (str ''hello'')
   \<and> decode int_ops (encode int_ops (JStr (str ''hello''))) = JStr (str ''hello'')"
  using text_round_trip [of int_ops "str ''hello''"]
  by (simp add: plain_text_def skip_ws_def is_ws_def is_digit_def str_def)

text \<open>
  C2, as the claim has it, fails: the text \<open>true\<close> is stored as it is and read back as
  the boolean.
\<close>

theorem text_true_decodes_as_boolean:
  "decode int_ops (encode int_ops (JStr (str ''true''))) \<noteq> JStr (str ''true'')"
  by (simp add: decode_def encode_def JSON_parse_def skip_ws_def is_ws_def str_def
      strip_prefix_def)


lemma setCookie_assigns:
  assumes "document_defined env" and "encodeURIComponent v = Some enc"
  shows "setCookie env name v options w
           = document_cookie_set env (cookie_string (clock w) name enc options) w"
  using assms by (simp add: setCookie_def)






















section \<open>The round trip through JSON\<close>

text \<open>What \<open>JSON.parse\<close> reads back from the text of \<open>JSON.stringify\<close>: first the
  numeric literals, then the strings, then the values by induction on the way they are
  written.\<close>

lemma takeWhile_digit_end:
  "value_end rest \<Longrightarrow> takeWhile is_digit (s @ rest) = takeWhile is_digit s"
  by (induction s) (auto simp: value_end_def is_digit_def split: list.splits)

lemma dropWhile_digit_end:
  "value_end rest \<Longrightarrow> dropWhile is_digit (s @ rest) = dropWhile is_digit s @ rest"
  by (induction s) (auto simp: value_end_def is_digit_def split: list.splits)

lemma scan_digits_append:
  assumes "scan_digits s = Some (p, r)" and "value_end rest"
  shows "scan_digits (s @ rest) = Some (p, r @ rest)"
  using assms
  by (auto simp: scan_digits_def takeWhile_digit_end dropWhile_digit_end split: if_splits)

lemma scan_int_append:
  assumes "scan_int s = Some (p, r)" and "value_end rest"
  shows "scan_int (s @ rest) = Some (p, r @ rest)"
proof (cases s)
  case Nil
  with assms show ?thesis by (simp add: scan_int_def)
next
  case (Cons c cs)
  show ?thesis
  proof (cases "c = 48")
    case True
    with Cons assms show ?thesis by (auto simp: scan_int_def)
  next
    case False
    with Cons have a: "scan_int s = scan_digits s"
      and b: "scan_int (s @ rest) = scan_digits (s @ rest)"
      by (simp_all add: scan_int_def)
    from assms a have "scan_digits s = Some (p, r)" by simp
    from scan_digits_append [OF this assms(2)] b show ?thesis by simp
  qed
qed

lemma scan_frac_append:
  assumes "scan_frac s = Some (p, r)" and "value_end rest"
  shows "scan_frac (s @ rest) = Some (p, r @ rest)"
proof (cases s)
  case Nil
  with assms show ?thesis
    by (cases rest) (auto simp: scan_frac_def value_end_def)
next
  case (Cons c cs)
  show ?thesis
  proof (cases "c = 46")
    case False
    with Cons assms show ?thesis by (auto simp: scan_frac_def)
  next
    case True
    with Cons assms(1) obtain ds where d: "scan_digits cs = Some (ds, r)" and p: "p = c # ds"
      by (auto simp: scan_frac_def split: option.splits)
    from scan_digits_append [OF d assms(2)] p True Cons show ?thesis
      by (simp add: scan_frac_def)
  qed
qed

lemma scan_exp_append:
  assumes "scan_exp s = Some (p, r)" and "value_end rest"
  shows "scan_exp (s @ rest) = Some (p, r @ rest)"
proof (cases s)
  case Nil
  with assms show ?thesis
    by (cases rest) (auto simp: scan_exp_def value_end_def)
next
  case s: (Cons c cs)
  show ?thesis
  proof (cases "c = 101 \<or> c = 69")
    case False
    with s assms show ?thesis by (auto simp: scan_exp_def)
  next
    case e: True
    show ?thesis
    proof (cases cs)
      case Nil
      with s e assms show ?thesis by (auto simp: scan_exp_def)
    next
      case cs: (Cons g cs')
      show ?thesis
      proof (cases "g = 43 \<or> g = 45")
        case True
        with s cs e assms(1) obtain ds where
          d: "scan_digits cs' = Some (ds, r)" and p: "p = c # g # ds"
          by (auto simp: scan_exp_def split: option.splits)
        from scan_digits_append [OF d assms(2)] p e True s cs show ?thesis
          by (simp add: scan_exp_def)
      next
        case False
        with s cs e assms(1) obtain ds where
          d: "scan_digits cs = Some (ds, r)" and p: "p = c # ds"
          by (auto simp: scan_exp_def split: option.splits)
        from scan_digits_append [OF d assms(2)]
        have "scan_digits (g # cs' @ rest) = Some (ds, r @ rest)" by (simp add: cs)
        with p e False s cs show ?thesis
          by (simp add: scan_exp_def)
      qed
    qed
  qed
qed

lemma scan_number_append:
  assumes "scan_number s = Some (p, r)" and "value_end rest"
  shows "scan_number (s @ rest) = Some (p, r @ rest)"
proof -
  define s0 where "s0 = (case s of [] \<Rightarrow> s | c # cs \<Rightarrow> if c = 45 then cs else s)"
  define sg where "sg = (case s of [] \<Rightarrow> [] | c # cs \<Rightarrow> if c = 45 then [c] else [])"
  from assms(1) obtain ip s1 fp s2 ep where
    i: "scan_int s0 = Some (ip, s1)" and f: "scan_frac s1 = Some (fp, s2)"
    and e: "scan_exp s2 = Some (ep, r)" and p: "p = sg @ ip @ fp @ ep"
    by (cases s) (auto simp: scan_number_def s0_def sg_def split: option.splits if_splits)
  from i have "s0 \<noteq> []" by (auto simp: scan_int_def)
  then have c: "(case s @ rest of [] \<Rightarrow> ([], s @ rest)
                 | c # cs \<Rightarrow> if c = 45 then ([c], cs) else ([], s @ rest))
                = (sg, s0 @ rest)"
    by (cases s) (auto simp: s0_def sg_def)
  show ?thesis
    unfolding scan_number_def c
    by (simp add: scan_int_append [OF i assms(2)] scan_frac_append [OF f assms(2)]
        scan_exp_append [OF e assms(2)] p)
qed

lemma number_literal_first:
  assumes "number_literal lit"
  shows "\<exists>c cs. lit = c # cs \<and> (c = 45 \<or> is_digit c)"
proof (cases lit)
  case Nil
  with assms show ?thesis by (simp add: number_literal_def scan_number_def scan_int_def)
next
  case (Cons c cs)
  show ?thesis
  proof (cases "c = 45 \<or> is_digit c")
    case True
    with Cons show ?thesis by simp
  next
    case False
    then have "scan_int (c # cs) = None"
      by (auto simp: scan_int_def scan_digits_def is_digit_def)
    with False Cons assms show ?thesis
      by (simp add: number_literal_def scan_number_def)
  qed
qed

lemma hex_value_hex_digit: "d < 16 \<Longrightarrow> hex_value (hex_digit d) = Some d"
  by (simp add: hex_value_def hex_digit_def)

lemma hex_sum:
  fixes c :: nat
  shows "4096 * (c div 4096) + 256 * (c div 256 mod 16) + 16 * (c div 16 mod 16) + c mod 16 = c"
proof -
  define u where "u = c div 16"
  define v where "v = c div 256"
  define x where "x = c div 4096"
  define y where "y = c div 256 mod 16"
  define z where "z = c div 16 mod 16"
  define w where "w = c mod 16"
  have "c div 16 div 16 = c div 256" and "c div 256 div 16 = c div 4096"
    by (simp_all add: div_mult2_eq [symmetric])
  then have "c = 16 * u + w" and "u = 16 * v + z" and "v = 16 * x + y"
    unfolding u_def v_def x_def y_def z_def w_def
    using mult_div_mod_eq [of 16 c] mult_div_mod_eq [of 16 "c div 16"]
      mult_div_mod_eq [of 16 "c div 256"]
    by simp_all
  then have "4096 * x + 256 * y + 16 * z + w = c" by simp
  then show ?thesis unfolding x_def y_def z_def w_def .
qed

lemma hex4_unicode:
  assumes "c < 65536"
  shows "hex4 (hex_digit (c div 4096)) (hex_digit (c div 256 mod 16))
           (hex_digit (c div 16 mod 16)) (hex_digit (c mod 16)) = Some c"
proof -
  from assms have "c div 4096 < 16" by simp
  then show ?thesis
    using hex_sum [of c] by (simp add: hex4_def hex_value_hex_digit)
qed

lemma parse_chars_escape:
  assumes "c < 65536"
  shows "parse_chars (unicode_escape c @ cs) = cons_result c (parse_chars cs)"
proof -
  from assms have "c div 4096 mod 16 = c div 4096" by simp
  then show ?thesis
    using hex4_unicode [OF assms] by (simp add: unicode_escape_def)
qed

lemma parse_chars_quote_unit:
  "parse_chars (quote_unit c @ cs) = cons_result c (parse_chars cs)"
  by (simp add: quote_unit_def unescape_def parse_chars_escape)

lemma parse_chars_quote_units:
  "parse_chars (quote_units s @ 34 # rest) = Some (s, rest)"
proof (induction s rule: quote_units.induct)
  case 1
  show ?case by simp
next
  case (2 c)
  show ?case
    by (simp add: parse_chars_escape parse_chars_quote_unit cons_result_def
        is_high_surrogate_def is_low_surrogate_def)
next
  case (3 c d cs)
  show ?case
  proof (cases "is_high_surrogate c \<and> is_low_surrogate d")
    case True
    with 3 show ?thesis
      by (simp add: cons_result_def is_high_surrogate_def is_low_surrogate_def)
  next
    case False
    with 3 show ?thesis
      by (simp add: parse_chars_escape parse_chars_quote_unit cons_result_def
          is_high_surrogate_def is_low_surrogate_def)
  qed
qed

lemma obj_of_members_distinct:
  assumes "distinct (map fst kvs)"
  shows "obj_of_members kvs = kvs"
proof -
  have "distinct (map fst (acc @ kvs))
          \<Longrightarrow> foldl (\<lambda>acc (k, v). obj_put k v acc) acc kvs = acc @ kvs" for acc
  proof (induction kvs arbitrary: acc)
    case Nil
    show ?case by simp
  next
    case (Cons kv kvs)
    obtain k v where kv: "kv = (k, v)" by (cases kv)
    from Cons.prems kv have "obj_put k v acc = acc @ [(k, v)]"
      by (auto simp: obj_put_def)
    moreover from Cons.prems have "distinct (map fst ((acc @ [kv]) @ kvs))" by simp
    ultimately show ?case using Cons.IH [of "acc @ [kv]"] kv by simp
  qed
  from this [of "[]"] assms show ?thesis by (simp add: obj_of_members_def)
qed

declare parse_value.simps [simp del] parse_elements.simps [simp del]
  parse_members.simps [simp del]

lemma skip_ws_token: "\<not> is_ws c \<Longrightarrow> skip_ws (c # cs) = c # cs"
  by (simp add: skip_ws_def)

lemma stringify_first:
  assumes "numbers_round_trip ops" and "representable ops v"
  shows "\<exists>c cs. stringify ops v = c # cs \<and> \<not> is_ws c \<and> c \<noteq> 93 \<and> c \<noteq> 125"
proof (cases v)
  case (JNum n)
  with assms have "number_literal (Number_toString ops n)" and "isFinite ops n"
    by (simp_all add: numbers_round_trip_def)
  with number_literal_first [of "Number_toString ops n"] JNum show ?thesis
    by (auto simp: is_ws_def is_digit_def)
qed (auto simp: str_def is_ws_def QuoteJSONString_def)

lemma stringify_elements_first:
  assumes "numbers_round_trip ops" and "\<forall>v \<in> set vs. representable ops v" and "vs \<noteq> []"
  shows "\<exists>c cs. stringify_elements ops vs = c # cs \<and> \<not> is_ws c \<and> c \<noteq> 93"
proof -
  from assms(3) obtain v ws where vs: "vs = v # ws" by (cases vs) auto
  with assms have "representable ops v" by simp
  from stringify_first [OF assms(1) this] obtain c cs where
    "stringify ops v = c # cs" "\<not> is_ws c" "c \<noteq> 93" by blast
  with vs show ?thesis by (cases ws) auto
qed

lemma stringify_members_first:
  assumes "kvs \<noteq> []"
  shows "\<exists>cs. stringify_members ops kvs = 34 # cs"
proof -
  from assms obtain k v ws where "kvs = (k, v) # ws" by (cases kvs) auto
  then show ?thesis by (cases ws) (auto simp: QuoteJSONString_def)
qed

lemma parse_value_number:
  assumes "scan_number (c # cs) = Some (lit, r)" and "c = 45 \<or> is_digit c"
  shows "parse_value ops (c # cs) = Some (JNum (StringToNumber ops lit), r)"
  using assms by (auto simp: is_digit_def parse_value.simps)

lemma parse_value_array:
  assumes "\<not> is_ws d" and "d \<noteq> 93" and "parse_elements ops (d # r) = Some (vs, r')"
  shows "parse_value ops (91 # d # r) = Some (JArr vs, r')"
  using assms by (simp add: skip_ws_token parse_value.simps)

lemma parse_value_object:
  assumes "\<not> is_ws d" and "d \<noteq> 125" and "parse_members ops (d # r) = Some (kvs, r')"
  shows "parse_value ops (123 # d # r) = Some (JObj (obj_of_members kvs), r')"
  using assms by (simp add: skip_ws_token parse_value.simps)

lemma parse_elements_last:
  assumes "parse_value ops (t @ 93 # r) = Some (v, 93 # r)" and "t \<noteq> []"
  shows "parse_elements ops (t @ 93 # r) = Some ([v], r)"
proof -
  have "skip_ws (93 # r) = 93 # r" by (simp add: skip_ws_token is_ws_def)
  moreover from assms(2) have "length (93 # r) < length (t @ 93 # r)" by simp
  ultimately show ?thesis
    using assms(1) by (subst parse_elements.simps) simp
qed

lemma parse_elements_more:
  assumes "parse_value ops (t @ 44 # d # r) = Some (v, 44 # d # r)" and "t \<noteq> []"
    and "\<not> is_ws d" and "parse_elements ops (d # r) = Some (vs, r')"
  shows "parse_elements ops (t @ 44 # d # r) = Some (v # vs, r')"
proof -
  have "skip_ws (44 # d # r) = 44 # d # r" by (simp add: skip_ws_token is_ws_def)
  moreover from assms(2) have "length (44 # d # r) < length (t @ 44 # d # r)" by simp
  moreover from assms(3) have "skip_ws (d # r) = d # r" by (rule skip_ws_token)
  ultimately show ?thesis
    using assms(1,4) by (subst parse_elements.simps) (simp add: cons_result_def)
qed

lemma parse_members_last:
  assumes "parse_value ops (d # t @ 125 # r) = Some (v, 125 # r)" and "\<not> is_ws d"
  shows "parse_members ops (QuoteJSONString k @ 58 # d # t @ 125 # r) = Some ([(k, v)], r)"
proof -
  have a: "parse_chars (quote_units k @ 34 # 58 # d # t @ 125 # r)
             = Some (k, 58 # d # t @ 125 # r)"
    by (rule parse_chars_quote_units)
  have b: "skip_ws (58 # d # t @ 125 # r) = 58 # d # t @ 125 # r"
    and c: "skip_ws (125 # r) = 125 # r"
    by (simp_all add: skip_ws_token is_ws_def)
  from assms(2) have d: "skip_ws (d # t @ 125 # r) = d # t @ 125 # r" by (rule skip_ws_token)
  show ?thesis
    using assms(1) by (simp add: QuoteJSONString_def parse_members.simps a b c d)
qed

lemma parse_members_more:
  assumes "parse_value ops (d # t @ 44 # 34 # r) = Some (v, 44 # 34 # r)" and "\<not> is_ws d"
    and "parse_members ops (34 # r) = Some (kvs, r')"
  shows "parse_members ops (QuoteJSONString k @ 58 # d # t @ 44 # 34 # r)
           = Some ((k, v) # kvs, r')"
proof -
  have a: "parse_chars (quote_units k @ 34 # 58 # d # t @ 44 # 34 # r)
             = Some (k, 58 # d # t @ 44 # 34 # r)"
    by (rule parse_chars_quote_units)
  have b: "skip_ws (58 # d # t @ 44 # 34 # r) = 58 # d # t @ 44 # 34 # r"
    and c: "skip_ws (44 # 34 # r) = 44 # 34 # r"
    and e: "skip_ws (34 # r) = 34 # r"
    by (simp_all add: skip_ws_token is_ws_def)
  from assms(2) have d: "skip_ws (d # t @ 44 # 34 # r) = d # t @ 44 # 34 # r"
    by (rule skip_ws_token)
  show ?thesis
    using assms(1,3)
    by (simp add: QuoteJSONString_def parse_members.simps a b c d e cons_result_def)
qed

lemma round_trip_aux:
  shows "numbers_round_trip ops \<Longrightarrow> representable ops v \<Longrightarrow> value_end rest
     \<Longrightarrow> parse_value ops (stringify ops v @ rest) = Some (v, rest)"
    and "numbers_round_trip ops \<Longrightarrow> \<forall>v \<in> set vs. representable ops v \<Longrightarrow> vs \<noteq> []
     \<Longrightarrow> parse_elements ops (stringify_elements ops vs @ 93 # rest) = Some (vs, rest)"
    and "numbers_round_trip ops \<Longrightarrow> \<forall>kv \<in> set kvs. representable ops (snd kv) \<Longrightarrow> kvs \<noteq> []
     \<Longrightarrow> parse_members ops (stringify_members ops kvs @ 125 # rest) = Some (kvs, rest)"
proof (induction ops v and ops vs and ops kvs arbitrary: rest and rest and rest
    rule: stringify_stringify_elements_stringify_members.induct)
  case (1 ops)
  show ?case by (simp add: str_def parse_value.simps strip_prefix_def)
next
  case (2 ops b)
  show ?case by (simp add: str_def parse_value.simps strip_prefix_def)
next
  case (3 ops n)
  then have lit: "number_literal (Number_toString ops n)"
    and nb: "StringToNumber ops (Number_toString ops n) = n" and fin: "isFinite ops n"
    by (simp_all add: numbers_round_trip_def)
  from number_literal_first [OF lit] obtain c cs where
    c: "Number_toString ops n = c # cs" "c = 45 \<or> is_digit c" by blast
  from lit have "scan_number (Number_toString ops n) = Some (Number_toString ops n, [])"
    by (simp add: number_literal_def)
  from scan_number_append [OF this "3.prems"(3)] c
  have "scan_number (c # cs @ rest) = Some (c # cs, rest)" by simp
  from parse_value_number [OF this c(2), of ops] c nb fin show ?case by simp
next
  case (4 ops s)
  show ?case
    by (simp add: QuoteJSONString_def parse_value.simps parse_chars_quote_units)
next
  case (5 ops vs)
  show ?case
  proof (cases "vs = []")
    case True
    then show ?thesis
      by (simp add: str_def parse_value.simps skip_ws_token is_ws_def)
  next
    case False
    from "5.prems" have r: "\<forall>v \<in> set vs. representable ops v" by simp
    from stringify_elements_first [OF "5.prems"(1) r False] obtain d r0 where
      d: "stringify_elements ops vs = d # r0" "\<not> is_ws d" "d \<noteq> 93" by blast
    from "5.IH" [OF "5.prems"(1) r False, of rest] d
    have "parse_elements ops (d # r0 @ 93 # rest) = Some (vs, rest)" by simp
    from parse_value_array [OF d(2,3) this] d show ?thesis by (simp add: str_def)
  qed
next
  case (6 ops kvs)
  from "6.prems" have dist: "distinct (map fst kvs)"
    and r: "\<forall>kv \<in> set kvs. representable ops (snd kv)" by simp_all
  show ?case
  proof (cases "kvs = []")
    case True
    then show ?thesis
      by (simp add: str_def parse_value.simps skip_ws_token is_ws_def)
  next
    case False
    from stringify_members_first [OF False, of ops] obtain r0 where
      d: "stringify_members ops kvs = 34 # r0" by blast
    from "6.IH" [OF "6.prems"(1) r False, of rest] d
    have "parse_members ops (34 # r0 @ 125 # rest) = Some (kvs, rest)" by simp
    from parse_value_object [OF _ _ this] d obj_of_members_distinct [OF dist]
    show ?thesis by (simp add: str_def is_ws_def)
  qed
next
  case (7 ops)
  then show ?case by simp
next
  case (8 ops v)
  then have r: "representable ops v" by simp
  from stringify_first [OF "8.prems"(1) r] have ne: "stringify ops v \<noteq> []" by auto
  have "value_end (93 # rest)" by (simp add: value_end_def)
  from "8.IH" [OF "8.prems"(1) r this]
  have "parse_value ops (stringify ops v @ 93 # rest) = Some (v, 93 # rest)" .
  from parse_elements_last [OF this ne] show ?case by simp
next
  case (9 ops v w vs)
  then have r: "representable ops v" and rs: "\<forall>x \<in> set (w # vs). representable ops x"
    by simp_all
  from stringify_first [OF "9.prems"(1) r] have ne: "stringify ops v \<noteq> []" by auto
  from stringify_elements_first [OF "9.prems"(1) rs] obtain d r0 where
    d: "stringify_elements ops (w # vs) = d # r0" "\<not> is_ws d" by blast
  have "value_end (44 # d # r0 @ 93 # rest)" by (simp add: value_end_def)
  from "9.IH"(1) [OF "9.prems"(1) r this]
  have a: "parse_value ops (stringify ops v @ 44 # d # r0 @ 93 # rest)
             = Some (v, 44 # d # r0 @ 93 # rest)" .
  from "9.IH"(2) [OF "9.prems"(1) rs, of rest] d
  have b: "parse_elements ops (d # r0 @ 93 # rest) = Some (w # vs, rest)" by simp
  from parse_elements_more [OF a ne d(2) b] d show ?case by (simp add: str_def)
next
  case (10 ops)
  then show ?case by simp
next
  case (11 ops k v)
  then have r: "representable ops v" by simp
  from stringify_first [OF "11.prems"(1) r] obtain d t where
    d: "stringify ops v = d # t" "\<not> is_ws d" by blast
  have "value_end (125 # rest)" by (simp add: value_end_def)
  from "11.IH" [OF "11.prems"(1) r this] d
  have "parse_value ops (d # t @ 125 # rest) = Some (v, 125 # rest)" by simp
  from parse_members_last [OF this d(2), of k] d show ?case by (simp add: str_def)
next
  case (12 ops k v m kvs)
  then have r: "representable ops v"
    and rs: "\<forall>kv \<in> set (m # kvs). representable ops (snd kv)" by simp_all
  from stringify_first [OF "12.prems"(1) r] obtain d t where
    d: "stringify ops v = d # t" "\<not> is_ws d" by blast
  from stringify_members_first [of "m # kvs" ops] obtain r0 where
    m: "stringify_members ops (m # kvs) = 34 # r0" by auto
  have "value_end (44 # 34 # r0 @ 125 # rest)" by (simp add: value_end_def)
  from "12.IH"(1) [OF "12.prems"(1) r this] d
  have a: "parse_value ops (d # t @ 44 # 34 # r0 @ 125 # rest)
             = Some (v, 44 # 34 # r0 @ 125 # rest)" by simp
  from "12.IH"(2) [OF "12.prems"(1) rs, of rest] m
  have b: "parse_members ops (34 # r0 @ 125 # rest) = Some (m # kvs, rest)" by simp
  from parse_members_more [OF a d(2) b, of k] d m show ?case by (simp add: str_def)
qed

text \<open>
  C3, as the code has it. When the platform's number texts round-trip, every value that
  is not a text and whose numbers are all finite comes back from the codec as itself,
  whatever its nesting.
\<close>

theorem structured_round_trip:
  assumes "numbers_round_trip ops" and "representable ops v" and "\<not> is_text v"
  shows "decode ops (encode ops v) = v"
proof -
  from assms(3) have e: "encode ops v = stringify ops v"
    by (cases v) (simp_all add: encode_def)
  from stringify_first [OF assms(1,2)] obtain c cs where
    c: "stringify ops v = c # cs" "\<not> is_ws c" by blast
  then have "skip_ws (stringify ops v) = stringify ops v" by (simp add: skip_ws_token)
  moreover have "parse_value ops (stringify ops v @ []) = Some (v, [])"
    using assms(1,2) by (rule round_trip_aux(1)) (simp add: value_end_def)
  ultimately have "JSON_parse ops (stringify ops v) = Some v"
    by (simp add: JSON_parse_def skip_ws_def)
  with e show ?thesis by (simp add: decode_def)
qed

lemma dec_digits_digits: "list_all is_digit (dec_digits n)"
proof (induction n rule: dec_digits.induct)
  case (1 n)
  show ?case
  proof (cases "n < 10")
    case True
    then show ?thesis by (subst dec_digits.simps) (simp add: is_digit_def)
  next
    case False
    have "n mod 10 < 10" by simp
    then have "is_digit (48 + n mod 10)" unfolding is_digit_def by linarith
    with False 1 show ?thesis by (subst dec_digits.simps) simp
  qed
qed

lemma dec_digits_hd: "\<exists>c cs. dec_digits n = c # cs \<and> (c = 48 \<longrightarrow> n = 0 \<and> cs = [])"
proof (induction n rule: dec_digits.induct)
  case (1 n)
  show ?case
  proof (cases "n < 10")
    case True
    then show ?thesis by (subst dec_digits.simps) simp
  next
    case False
    with 1 obtain c cs where "dec_digits (n div 10) = c # cs"
      "c = 48 \<longrightarrow> n div 10 = 0 \<and> cs = []" by blast
    with False show ?thesis by (subst dec_digits.simps) auto
  qed
qed

lemma read_digits_snoc: "read_digits (ds @ [c]) = 10 * read_digits ds + (c - 48)"
  by (simp add: read_digits_def)

lemma read_dec_digits: "read_digits (dec_digits n) = n"
proof (induction n rule: dec_digits.induct)
  case (1 n)
  show ?case
  proof (cases "n < 10")
    case True
    then show ?thesis by (subst dec_digits.simps) (simp add: read_digits_def)
  next
    case False
    with 1 have "read_digits (dec_digits (n div 10)) = n div 10" by simp
    with False show ?thesis
      by (subst dec_digits.simps) (simp add: read_digits_snoc)
  qed
qed

lemma scan_number_dec_digits:
  "scan_number (dec_digits n) = Some (dec_digits n, [])"
  "scan_number (45 # dec_digits n) = Some (45 # dec_digits n, [])"
proof -
  from dec_digits_hd [of n] obtain c cs where
    c: "dec_digits n = c # cs" "c = 48 \<longrightarrow> n = 0 \<and> cs = []" by blast
  from dec_digits_digits [of n] have
    t: "takeWhile is_digit (dec_digits n) = dec_digits n"
    and d: "dropWhile is_digit (dec_digits n) = []"
    by (simp_all add: list_all_iff)
  from dec_digits_digits [of n] c have "c \<noteq> 45" by (auto simp: is_digit_def)
  have i: "scan_int (dec_digits n) = Some (dec_digits n, [])"
  proof (cases "c = 48")
    case True
    with c show ?thesis by (simp add: scan_int_def)
  next
    case False
    with c t d show ?thesis by (simp add: scan_int_def scan_digits_def)
  qed
  have f: "scan_frac [] = Some ([], [])" and e: "scan_exp [] = Some ([], [])"
    by (simp_all add: scan_frac_def scan_exp_def)
  from i f e c \<open>c \<noteq> 45\<close> show "scan_number (dec_digits n) = Some (dec_digits n, [])"
    by (simp add: scan_number_def)
  from i f e show "scan_number (45 # dec_digits n) = Some (45 # dec_digits n, [])"
    by (simp add: scan_number_def)
qed

lemma int_ops_round_trip: "numbers_round_trip int_ops"
proof -
  have "number_literal (int_toString (Fin i)) \<and> int_ofLiteral (int_toString (Fin i)) = Fin i"
    for i
  proof (cases "i < 0")
    case True
    from dec_digits_hd [of "nat (- i)"] have "dec_digits (nat (- i)) \<noteq> []" by auto
    with True show ?thesis
      using dec_digits_digits [of "nat (- i)"]
      by (simp add: number_literal_def scan_number_dec_digits int_ofLiteral_def
          read_dec_digits)
  next
    case False
    from dec_digits_hd [of "nat i"] obtain c cs where
      c: "dec_digits (nat i) = c # cs" by blast
    from dec_digits_digits [of "nat i"] c have "c \<noteq> 45" by (auto simp: is_digit_def)
    have "int_ofLiteral (dec_digits (nat i)) = Fin (int (read_digits (dec_digits (nat i))))"
      using dec_digits_digits [of "nat i"] c \<open>c \<noteq> 45\<close>
      by (simp add: int_ofLiteral_def)
    with False show ?thesis
      by (simp add: number_literal_def scan_number_dec_digits read_dec_digits)
  qed
  then show ?thesis
    unfolding numbers_round_trip_def
    by (intro allI impI) (case_tac n, simp_all add: int_ops_def)
qed

theorem structured_round_trip_witness:
  "numbers_round_trip int_ops \<and> representable int_ops sample_value \<and> \<not> is_text sample_value
   \<and> decode int_ops (encode int_ops sample_value) = sample_value"
proof -
  have r: "representable int_ops sample_value"
    by (simp add: sample_value_def int_ops_def str_def)
  have t: "\<not> is_text sample_value" by (simp add: sample_value_def)
  from structured_round_trip [OF int_ops_round_trip r t] int_ops_round_trip r t
  show ?thesis by simp
qed

text \<open>
  C3, as the claim has it, fails: the number \<open>NaN\<close> is written as \<open>null\<close> and read back
  as \<open>null\<close>.
\<close>

theorem nan_decodes_as_null:
  "decode int_ops (encode int_ops (JNum NaN)) \<noteq> JNum NaN"
  by (simp add: decode_def encode_def int_ops_def JSON_parse_def skip_ws_def is_ws_def
      str_def strip_prefix_def parse_value.simps)

text \<open>A parser that returns a value has read at least one character, so the two
  tests on the length in \<open>parse_elements\<close> and \<open>parse_members\<close> never fail.\<close>

lemma scan_digits_length:
  assumes "scan_digits s = Some (p, r)"
  shows "length r < length s"
proof -
  from assms have "takeWhile is_digit s \<noteq> []" and r: "r = dropWhile is_digit s"
    by (auto simp: scan_digits_def split: if_splits)
  moreover have "length (takeWhile is_digit s) + length (dropWhile is_digit s) = length s"
    using takeWhile_dropWhile_id [of is_digit s] length_append
    by metis
  ultimately show ?thesis by (cases "takeWhile is_digit s") auto
qed

lemma scan_int_length: "scan_int s = Some (p, r) \<Longrightarrow> length r < length s"
  by (cases s) (auto simp: scan_int_def split: if_splits dest: scan_digits_length)

lemma scan_frac_length: "scan_frac s = Some (p, r) \<Longrightarrow> length r \<le> length s"
  by (cases s)
     (auto simp: scan_frac_def split: if_splits option.splits dest!: scan_digits_length)

lemma scan_exp_length: "scan_exp s = Some (p, r) \<Longrightarrow> length r \<le> length s"
  by (cases s)
     (auto simp: scan_exp_def split: if_splits option.splits list.splits
        dest!: scan_digits_length)

lemma scan_number_length:
  assumes "scan_number s = Some (p, r)"
  shows "length r < length s"
proof -
  define s0 where "s0 = (case s of [] \<Rightarrow> s | c # cs \<Rightarrow> if c = 45 then cs else s)"
  have le: "length s0 \<le> length s" by (cases s) (simp_all add: s0_def)
  from assms obtain ip s1 fp s2 ep where
    i: "scan_int s0 = Some (ip, s1)" and f: "scan_frac s1 = Some (fp, s2)"
    and e: "scan_exp s2 = Some (ep, r)"
    by (cases s) (auto simp: scan_number_def s0_def split: option.splits if_splits)
  from le scan_int_length [OF i] scan_frac_length [OF f] scan_exp_length [OF e]
  show ?thesis by simp
qed

lemma strip_prefix_length: "strip_prefix p s = Some r \<Longrightarrow> length r \<le> length s"
  by (auto simp: strip_prefix_def split: if_splits)

lemma parse_consumes:
  shows "parse_value ops s = Some (v, r) \<Longrightarrow> length r < length s"
    and "parse_elements ops s = Some (vs, r) \<Longrightarrow> length r < length s"
    and "parse_members ops s = Some (kvs, r) \<Longrightarrow> length r < length s"
proof (induction ops s and ops s and ops s arbitrary: v r and vs r and kvs r
    rule: parse_value_parse_elements_parse_members.induct)
  case (1 ops)
  then show ?case by (simp add: parse_value.simps)
next
  case (2 ops c cs)
  note p = "2.prems" [unfolded parse_value.simps]
  consider (obj) "c = 123" | (arr) "c \<noteq> 123" "c = 91" | (other) "c \<noteq> 123" "c \<noteq> 91"
    by blast
  then show ?case
  proof cases
    case obj
    show ?thesis
    proof (cases "skip_ws cs")
      case Nil
      with p obj show ?thesis by simp
    next
      case (Cons d r0)
      show ?thesis
      proof (cases "d = 125")
        case True
        with p obj Cons skip_ws_Cons [OF Cons] show ?thesis by auto
      next
        case False
        with p obj Cons obtain kvs where
          m: "parse_members ops (skip_ws cs) = Some (kvs, r)"
          by (auto split: option.splits)
        with "2.IH"(1) obj Cons False have "length r < length (skip_ws cs)" by blast
        with skip_ws_length [of cs] show ?thesis by simp
      qed
    qed
  next
    case arr
    show ?thesis
    proof (cases "skip_ws cs")
      case Nil
      with p arr show ?thesis by simp
    next
      case (Cons d r0)
      show ?thesis
      proof (cases "d = 93")
        case True
        with p arr Cons skip_ws_Cons [OF Cons] show ?thesis by auto
      next
        case False
        with p arr Cons obtain xs where
          m: "parse_elements ops (skip_ws cs) = Some (xs, r)"
          by (auto split: option.splits)
        with "2.IH"(2) arr Cons False have "length r < length (skip_ws cs)" by blast
        with skip_ws_length [of cs] show ?thesis by simp
      qed
    qed
  next
    case other
    with p show ?thesis
      by (auto split: if_splits option.splits
          dest!: parse_chars_length strip_prefix_length scan_number_length)
  qed
next
  case (3 ops s)
  from "3.prems" obtain x r1 where pv: "parse_value ops s = Some (x, r1)"
    and g: "length r1 < length s"
    and k: "(case skip_ws r1 of
               [] \<Rightarrow> None
             | d # r' \<Rightarrow>
                 if d = 44 then cons_result x (parse_elements ops (skip_ws r'))
                 else if d = 93 then Some ([x], r') else None) = Some (vs, r)"
    by (subst (asm) parse_elements.simps) (auto split: option.splits if_splits)
  show ?case
  proof (cases "skip_ws r1")
    case Nil
    with k show ?thesis by simp
  next
    case (Cons d r')
    note l = skip_ws_Cons [OF Cons]
    show ?thesis
    proof (cases "d = 44")
      case True
      with k Cons obtain xs where
        m: "parse_elements ops (skip_ws r') = Some (xs, r)"
        by (auto simp: cons_result_def split: option.splits)
      with "3.IH"(2) pv g Cons True have "length r < length (skip_ws r')" by blast
      with skip_ws_length [of r'] l g show ?thesis by simp
    next
      case False
      with k Cons l g show ?thesis by (auto split: if_splits)
    qed
  qed
next
  case (4 ops)
  then show ?case by (simp add: parse_members.simps)
next
  case (5 ops c cs)
  note p = "5.prems" [unfolded parse_members.simps]
  from p have c: "c = 34" by (auto split: if_splits)
  from p c obtain k r0 where pc: "parse_chars cs = Some (k, r0)"
    by (auto split: option.splits)
  from p c pc obtain r1 where sk: "skip_ws r0 = 58 # r1"
    by (auto split: list.splits if_splits)
  from p c pc sk obtain x r2 where pv: "parse_value ops (skip_ws r1) = Some (x, r2)"
    and g: "length r2 < length (skip_ws r1)"
    and k2: "(case skip_ws r2 of
                [] \<Rightarrow> None
              | e # r3 \<Rightarrow>
                  if e = 44 then cons_result (k, x) (parse_members ops (skip_ws r3))
                  else if e = 125 then Some ([(k, x)], r3) else None) = Some (kvs, r)"
    by (auto split: option.splits if_splits)
  from parse_chars_length [OF pc] skip_ws_Cons [OF sk] skip_ws_length [of r1] g
  have l2: "length r2 < length cs" by simp
  show ?case
  proof (cases "skip_ws r2")
    case Nil
    with k2 show ?thesis by simp
  next
    case (Cons e r3)
    note l = skip_ws_Cons [OF Cons]
    show ?thesis
    proof (cases "e = 44")
      case True
      with k2 Cons obtain ms where
        m: "parse_members ops (skip_ws r3) = Some (ms, r)"
        by (auto simp: cons_result_def split: option.splits)
      with "5.IH"(2) c pc sk pv g Cons True have "length r < length (skip_ws r3)" by blast
      with skip_ws_length [of r3] l l2 show ?thesis by simp
    next
      case False
      with k2 Cons l l2 show ?thesis by (auto split: if_splits)
    qed
  qed
qed

end
